theory Spec2Isabelle
  imports Complex_Main
begin

section \<open>Values, strings and errors of the Python program\<close>

text \<open>
  The two modules \<^verbatim>\<open>main.py\<close> and \<^verbatim>\<open>main2.py\<close> implement the same pipeline:
  a per-element transform of an integer list, summary statistics, outlier detection,
  grouping into three ranges and a text report.

  Python integers are unbounded and are modelled as \<^typ>\<open>int\<close>. A Python float is an
  IEEE 754 double: every operation on floats returns the double nearest to the exact
  result, ties to the even mantissa, or an infinity or a NaN. A finite Python number, an
  int or a float, is modelled by its real value, and the rounding is written out at
  every operation that rounds. A Python \<^verbatim>\<open>str\<close> is a sequence of Unicode code points and
  is modelled as a list of code points.
\<close>

type_synonym pystr = "nat list"

definition ascii :: "string \<Rightarrow> pystr" where
  "ascii s = map of_char s"

datatype py_error =
    ValueError pystr
  | ZeroDivisionError
  | OverflowError
  | TypeError

text \<open>The message of \<^verbatim>\<open>raise ValueError(...)\<close> in \<^verbatim>\<open>process_data\<close> of both
  modules (Russian for: the data cannot be empty).\<close>

definition msg_empty_data :: pystr where
  "msg_empty_data =
     [1044, 1072, 1085, 1085, 1099, 1077, 32, 1085, 1077, 32, 1084, 1086, 1075, 1091, 1090,
      32, 1073, 1099, 1090, 1100, 32, 1087, 1091, 1089, 1090, 1099, 1084, 1080]"

text \<open>The message of \<^verbatim>\<open>complex_operation\<close> in \<^verbatim>\<open>main.py\<close> (z cannot be zero).\<close>

definition msg_z_zero :: pystr where
  "msg_z_zero =
     [122, 32, 1085, 1077, 32, 1084, 1086, 1078, 1077, 1090, 32, 1073, 1099, 1090, 1100, 32,
      1085, 1091, 1083, 1077, 1084]"

text \<open>The message of \<^verbatim>\<open>perform_complex_calculation\<close> in \<^verbatim>\<open>main2.py\<close> (the divisor
  cannot be zero).\<close>

definition msg_divisor_zero :: pystr where
  "msg_divisor_zero =
     [1044, 1077, 1083, 1080, 1090, 1077, 1083, 1100, 32, 1085, 1077, 32, 1084, 1086, 1078,
      1077, 1090, 32, 1073, 1099, 1090, 1100, 32, 1085, 1091, 1083, 1077, 1084]"

section \<open>Double-precision arithmetic\<close>

text \<open>Rounding to the nearest integer, ties to the even one.\<close>

definition round_half_even :: "real \<Rightarrow> int" where
  "round_half_even y =
     (let f = \<lfloor>y\<rfloor>; d = y - of_int f
      in if d < 1 / 2 then f
         else if d > 1 / 2 then f + 1
         else if even f then f else f + 1)"

text \<open>
  A double has a mantissa of 53 bits and a binary exponent from -1022 to 1023. The
  doubles near \<open>x\<close> are the integer multiples of \<open>2 powi ulp_exp x\<close>; below \<open>2 powi (-1022)\<close>
  the spacing stays \<open>2 powi (-1074)\<close> (subnormal numbers). \<open>round_double x\<close> is the
  nearest of them, ties to the even multiple. A result of magnitude \<open>dbl_overflow\<close> or
  more, half a step above the largest double, is beyond the range.
\<close>

definition ulp_exp :: "real \<Rightarrow> int" where
  "ulp_exp x = max \<lfloor>log 2 \<bar>x\<bar>\<rfloor> (- 1022) - 52"

definition round_double :: "real \<Rightarrow> real" where
  "round_double x =
     of_int (round_half_even (x / 2 powi ulp_exp x)) * 2 powi ulp_exp x"

definition dbl_overflow :: real where
  "dbl_overflow = 2 ^ 1024 - 2 ^ 970"

text \<open>A float: a finite double, an infinity or a NaN. Zero has no sign here: the program
  never divides by a float, and it formats no negative number.\<close>

datatype pyfloat = Fin real | PInf | NInf | NaN

text \<open>The float that an operation on floats returns for the exact result \<open>x\<close>.\<close>

definition fl :: "real \<Rightarrow> pyfloat" where
  "fl x =
     (if dbl_overflow \<le> x then PInf
      else if x \<le> - dbl_overflow then NInf
      else Fin (round_double x))"

fun float_neg :: "pyfloat \<Rightarrow> pyfloat" where
  "float_neg (Fin a) = Fin (- a)"
| "float_neg PInf = NInf"
| "float_neg NInf = PInf"
| "float_neg NaN = NaN"

fun float_abs :: "pyfloat \<Rightarrow> pyfloat" where
  "float_abs (Fin a) = Fin \<bar>a\<bar>"
| "float_abs PInf = PInf"
| "float_abs NInf = PInf"
| "float_abs NaN = NaN"

fun float_add :: "pyfloat \<Rightarrow> pyfloat \<Rightarrow> pyfloat" where
  "float_add (Fin a) (Fin b) = fl (a + b)"
| "float_add NaN y = NaN"
| "float_add x NaN = NaN"
| "float_add PInf NInf = NaN"
| "float_add NInf PInf = NaN"
| "float_add PInf y = PInf"
| "float_add x PInf = PInf"
| "float_add NInf y = NInf"
| "float_add x NInf = NInf"

definition float_sub :: "pyfloat \<Rightarrow> pyfloat \<Rightarrow> pyfloat" where
  "float_sub x y = float_add x (float_neg y)"

text \<open>The sign of a float: -1, 0 or 1; a NaN has none.\<close>

fun float_sgn :: "pyfloat \<Rightarrow> int option" where
  "float_sgn (Fin a) = Some (if a < 0 then - 1 else if a = 0 then 0 else 1)"
| "float_sgn PInf = Some 1"
| "float_sgn NInf = Some (- 1)"
| "float_sgn NaN = None"

fun float_mul :: "pyfloat \<Rightarrow> pyfloat \<Rightarrow> pyfloat" where
  "float_mul (Fin a) (Fin b) = fl (a * b)"
| "float_mul x y =
     (case (float_sgn x, float_sgn y) of
        (Some s, Some t) \<Rightarrow>
          if s * t = 0 then NaN else if 0 < s * t then PInf else NInf
      | _ \<Rightarrow> NaN)"

text \<open>\<^verbatim>\<open>x > y\<close>: false whenever an operand is a NaN.\<close>

fun float_gt :: "pyfloat \<Rightarrow> pyfloat \<Rightarrow> bool" where
  "float_gt (Fin a) (Fin b) = (a > b)"
| "float_gt NaN y = False"
| "float_gt x NaN = False"
| "float_gt PInf y = (y \<noteq> PInf)"
| "float_gt x PInf = False"
| "float_gt x NInf = (x \<noteq> NInf)"
| "float_gt NInf y = False"

text \<open>
  \<^verbatim>\<open>x ** 2\<close> on a float: the square, rounded; \<^verbatim>\<open>OverflowError\<close> when a finite \<open>x\<close> has a
  square beyond the range. The square of an infinity is infinite and raises nothing, and
  a square too small for a double is rounded like any other, to zero or a subnormal
  number. (Python calls the \<^verbatim>\<open>pow\<close> of the C library, taken here to return the nearest
  double for the exponent 2.)
\<close>

fun float_pow2 :: "pyfloat \<Rightarrow> py_error + pyfloat" where
  "float_pow2 (Fin a) =
     (if dbl_overflow \<le> a * a then Inl OverflowError else Inr (Fin (round_double (a * a))))"
| "float_pow2 PInf = Inr PInf"
| "float_pow2 NInf = Inr PInf"
| "float_pow2 NaN = Inr NaN"

subsection \<open>Operations on numbers that are ints or floats\<close>

text \<open>
  Python converts an int to a float, rounding it, when it meets a float in an operation
  or is passed to \<^verbatim>\<open>math.sqrt\<close>; an int of magnitude \<open>dbl_overflow\<close> or more raises
  \<^verbatim>\<open>OverflowError\<close> there. A float is finite below that magnitude, so a finite number as
  large as that is an int.

  \<^verbatim>\<open>a / b\<close> on two ints is the exact quotient, rounded once; it raises
  \<^verbatim>\<open>ZeroDivisionError\<close> for \<open>b = 0\<close> and \<^verbatim>\<open>OverflowError\<close> beyond the range.
\<close>

definition int_truediv :: "int \<Rightarrow> int \<Rightarrow> py_error + real" where
  "int_truediv a b =
     (if b = 0 then Inl ZeroDivisionError
      else if dbl_overflow \<le> \<bar>of_int a / of_int b\<bar> then Inl OverflowError
      else Inr (round_double (of_int a / of_int b)))"

text \<open>
  \<^verbatim>\<open>v / n\<close> for a finite number \<open>v\<close> and a small non-negative int \<open>n\<close> (the literal 10, or the
  length of a list): the quotient is not larger than \<open>v\<close>, so it is beyond the range only
  when \<open>v\<close> is an int, and the division of two ints raises \<^verbatim>\<open>OverflowError\<close> then.
\<close>

definition num_div :: "real \<Rightarrow> nat \<Rightarrow> py_error + real" where
  "num_div v n =
     (if n = 0 then Inl ZeroDivisionError
      else if dbl_overflow \<le> \<bar>v / real n\<bar> then Inl OverflowError
      else Inr (round_double (v / real n)))"

fun float_div :: "pyfloat \<Rightarrow> nat \<Rightarrow> py_error + pyfloat" where
  "float_div (Fin s) n = (case num_div s n of Inl e \<Rightarrow> Inl e | Inr r \<Rightarrow> Inr (Fin r))"
| "float_div x n = (if n = 0 then Inl ZeroDivisionError else Inr x)"

subsection \<open>Library functions of Python used by the program\<close>

text \<open>
  \<^verbatim>\<open>math.sqrt\<close> converts its argument to a float and returns the rounded square root; it
  raises \<^verbatim>\<open>ValueError("math domain error")\<close> below zero. \<open>math_sqrt_num\<close> takes a finite
  number, \<open>math_sqrt\<close> a float.
\<close>

definition math_sqrt_num :: "real \<Rightarrow> py_error + real" where
  "math_sqrt_num x =
     (if x < 0 then Inl (ValueError (ascii ''math domain error''))
      else if dbl_overflow \<le> x then Inl OverflowError
      else Inr (round_double (sqrt (round_double x))))"

fun math_sqrt :: "pyfloat \<Rightarrow> py_error + pyfloat" where
  "math_sqrt (Fin x) = (case math_sqrt_num x of Inl e \<Rightarrow> Inl e | Inr r \<Rightarrow> Inr (Fin r))"
| "math_sqrt PInf = Inr PInf"
| "math_sqrt NInf = Inl (ValueError (ascii ''math domain error''))"
| "math_sqrt NaN = Inr NaN"

text \<open>
  \<^verbatim>\<open>math.log\<close> raises \<^verbatim>\<open>ValueError("math domain error")\<close> for a number that is not
  positive. For a positive number it returns what the logarithm of the platform's C
  library returns, an approximation of the natural logarithm that need not be the
  nearest double: that function is the parameter \<open>libm_log\<close>. The argument is an int of
  any size, given by its value, or a float.
\<close>

fun math_log :: "(real \<Rightarrow> real) \<Rightarrow> pyfloat \<Rightarrow> py_error + pyfloat" where
  "math_log libm_log (Fin x) =
     (if x \<le> 0 then Inl (ValueError (ascii ''math domain error''))
      else Inr (Fin (libm_log x)))"
| "math_log libm_log PInf = Inr PInf"
| "math_log libm_log NInf = Inl (ValueError (ascii ''math domain error''))"
| "math_log libm_log NaN = Inr NaN"

text \<open>\<^verbatim>\<open>math.pi\<close>, the double nearest to pi.\<close>

definition math_pi :: real where
  "math_pi = 884279719003555 / 2 ^ 48"

text \<open>\<^verbatim>\<open>sum(xs)\<close> starts at the int 0 and adds from the left, one rounded addition for
  each float. The ints of a list of processed values are at most 100, and a sum of
  ints is exact; it is a double as long as it is below \<open>2 ^ 53\<close>. (CPython from 3.12 on
  also carries the rounding errors of the partial sums along and adds them at the end,
  which can change the last bit of a sum of floats that is not exact.)\<close>

definition py_sum :: "pyfloat list \<Rightarrow> pyfloat" where
  "py_sum xs = foldl float_add (Fin 0) xs"

text \<open>\<^verbatim>\<open>max(xs)\<close> and \<^verbatim>\<open>min(xs)\<close> raise \<^verbatim>\<open>ValueError\<close> on an empty list.\<close>

fun py_max :: "real list \<Rightarrow> py_error + real" where
  "py_max [] = Inl (ValueError (ascii ''max() arg is an empty sequence''))"
| "py_max (x # xs) = Inr (foldl max x xs)"

fun py_min :: "real list \<Rightarrow> py_error + real" where
  "py_min [] = Inl (ValueError (ascii ''min() arg is an empty sequence''))"
| "py_min (x # xs) = Inr (foldl min x xs)"

section \<open>\<^verbatim>\<open>main2.py\<close>: DataTransformer\<close>

text \<open>\<^verbatim>\<open>num ** 2\<close> on an int is an int, of any size. \<^verbatim>\<open>adjust_value_range\<close> receives that
  int, or the float of \<^verbatim>\<open>transform_odd_number\<close>; in \<^verbatim>\<open>value * 10\<close> the product of an int is
  exact and the product of a float is rounded, which is the same for the only number
  below 1 that the pipeline passes, the int 0. (The product of a float below
  \<open>- dbl_overflow / 10\<close> would be minus infinity; the transform returns no negative
  number.)\<close>

definition transform_even_number :: "int \<Rightarrow> real" where
  "transform_even_number num = of_int (num ^ 2)"

definition transform_odd_number :: "int \<Rightarrow> py_error + real" where
  "transform_odd_number num = math_sqrt_num (of_int \<bar>num\<bar>)"

definition adjust_value_range :: "real \<Rightarrow> py_error + real" where
  "adjust_value_range v =
     (if v > 100 then num_div v 10
      else if v < 1 then Inr (round_double (v * 10))
      else Inr v)"

section \<open>\<^verbatim>\<open>main2.py\<close>: DataStatisticsCalculator\<close>

definition calculate_mean :: "real list \<Rightarrow> py_error + pyfloat" where
  "calculate_mean vs = float_div (py_sum (map Fin vs)) (length vs)"

text \<open>The generator \<^verbatim>\<open>(x - mean) ** 2 for x in values\<close> inside \<^verbatim>\<open>sum\<close>: \<open>acc\<close> is the sum so
  far, and the first square that raises ends the sum.\<close>

fun sum_squared_deviations :: "real list \<Rightarrow> pyfloat \<Rightarrow> pyfloat \<Rightarrow> py_error + pyfloat" where
  "sum_squared_deviations [] mean acc = Inr acc"
| "sum_squared_deviations (x # xs) mean acc =
     (case float_pow2 (float_sub (Fin x) mean) of
        Inl e \<Rightarrow> Inl e
      | Inr s \<Rightarrow> sum_squared_deviations xs mean (float_add acc s))"

definition calculate_standard_deviation :: "real list \<Rightarrow> py_error + pyfloat" where
  "calculate_standard_deviation vs =
     (case calculate_mean vs of
        Inl e \<Rightarrow> Inl e
      | Inr mean \<Rightarrow>
          (case sum_squared_deviations vs mean (Fin 0) of
             Inl e \<Rightarrow> Inl e
           | Inr s \<Rightarrow>
               (case float_div s (length vs) of
                  Inl e \<Rightarrow> Inl e
                | Inr variance \<Rightarrow> math_sqrt variance)))"

text \<open>The dictionary with the keys \<^verbatim>\<open>'mean'\<close>, \<^verbatim>\<open>'max'\<close>, \<^verbatim>\<open>'min'\<close>, \<^verbatim>\<open>'std_dev'\<close>.\<close>

record stats =
  stats_mean :: pyfloat
  stats_max :: real
  stats_min :: real
  stats_std_dev :: pyfloat

text \<open>The entries of the dictionary display are evaluated in the order written.\<close>

definition calculate_basic_stats :: "real list \<Rightarrow> py_error + stats" where
  "calculate_basic_stats vs =
     (case calculate_mean vs of
        Inl e \<Rightarrow> Inl e
      | Inr m \<Rightarrow>
          (case py_max vs of
             Inl e \<Rightarrow> Inl e
           | Inr mx \<Rightarrow>
               (case py_min vs of
                  Inl e \<Rightarrow> Inl e
                | Inr mn \<Rightarrow>
                    (case calculate_standard_deviation vs of
                       Inl e \<Rightarrow> Inl e
                     | Inr sd \<Rightarrow>
                         Inr \<lparr>stats_mean = m, stats_max = mx, stats_min = mn,
                              stats_std_dev = sd\<rparr>))))"

section \<open>\<^verbatim>\<open>main2.py\<close>: ProcessedData and DataProcessor\<close>

record ProcessedData =
  pd_values :: "real list"
  is_processed :: bool

record processor2 =
  raw_data :: "int list"
  results2 :: ProcessedData

definition DataProcessor2 :: "int list \<Rightarrow> processor2" where
  "DataProcessor2 d = \<lparr>raw_data = d, results2 = \<lparr>pd_values = [], is_processed = False\<rparr>\<rparr>"

text \<open>The loop of \<^verbatim>\<open>process_data\<close>: \<open>transformed_values\<close> is the list built so far.\<close>

fun process_loop2 :: "int list \<Rightarrow> real list \<Rightarrow> py_error + real list" where
  "process_loop2 [] transformed_values = Inr transformed_values"
| "process_loop2 (num # rest) transformed_values =
     (case (if num mod 2 = 0 then Inr (transform_even_number num)
            else transform_odd_number num) of
        Inl e \<Rightarrow> Inl e
      | Inr transformed \<Rightarrow>
          (case adjust_value_range transformed of
             Inl e \<Rightarrow> Inl e
           | Inr adjusted \<Rightarrow> process_loop2 rest (transformed_values @ [adjusted])))"

definition process_data2 :: "processor2 \<Rightarrow> py_error + processor2" where
  "process_data2 p =
     (if raw_data p = [] then Inl (ValueError msg_empty_data)
      else
        (case process_loop2 (raw_data p) [] of
           Inl e \<Rightarrow> Inl e
         | Inr transformed_values \<Rightarrow>
             Inr (p\<lparr>results2 := \<lparr>pd_values = transformed_values, is_processed = True\<rparr>\<rparr>)))"

definition get_results2 :: "processor2 \<Rightarrow> py_error + (real list \<times> processor2)" where
  "get_results2 p =
     (if \<not> is_processed (results2 p) then
        (case process_data2 p of
           Inl e \<Rightarrow> Inl e
         | Inr p' \<Rightarrow> Inr (pd_values (results2 p'), p'))
      else Inr (pd_values (results2 p), p))"

definition calculate_stats2 :: "processor2 \<Rightarrow> py_error + (stats \<times> processor2)" where
  "calculate_stats2 p =
     (case get_results2 p of
        Inl e \<Rightarrow> Inl e
      | Inr (rs, p') \<Rightarrow>
          (case calculate_basic_stats rs of
             Inl e \<Rightarrow> Inl e
           | Inr st \<Rightarrow> Inr (st, p')))"

section \<open>\<^verbatim>\<open>main2.py\<close>: DataAnalyzer\<close>

text \<open>
  A DataAnalyzer holds nothing but the reference to its processor, and its methods change
  that processor through the lazy processing of \<^verbatim>\<open>get_results\<close>: they are modelled as
  functions from the processor's state to the result and the processor's new state.
  The parameter \<open>threshold\<close> is a finite float and has the default 2.0.
\<close>

definition default_threshold :: real where
  "default_threshold = 2"

text \<open>The test \<^verbatim>\<open>abs(value - mean) > threshold * std_dev\<close> of both modules, every
  operation on floats.\<close>

definition is_outlier :: "real \<Rightarrow> pyfloat \<Rightarrow> pyfloat \<Rightarrow> real \<Rightarrow> bool" where
  "is_outlier threshold mean std_dev val =
     float_gt (float_abs (float_sub (Fin val) mean)) (float_mul (Fin threshold) std_dev)"

definition find_outliers2 :: "processor2 \<Rightarrow> real \<Rightarrow> py_error + ((nat \<times> real) list \<times> processor2)" where
  "find_outliers2 p threshold =
     (case get_results2 p of
        Inl e \<Rightarrow> Inl e
      | Inr (rs, p1) \<Rightarrow>
          (case calculate_stats2 p1 of
             Inl e \<Rightarrow> Inl e
           | Inr (st, p2) \<Rightarrow>
               (let mean = stats_mean st; std_dev = stats_std_dev st
                in Inr (filter (\<lambda>(idx, val). is_outlier threshold mean std_dev val)
                          (enumerate 0 rs), p2))))"

text \<open>The dictionary with the keys \<^verbatim>\<open>'low'\<close>, \<^verbatim>\<open>'medium'\<close>, \<^verbatim>\<open>'high'\<close>.\<close>

record groups =
  low :: "real list"
  medium :: "real list"
  high :: "real list"

definition group_values_by_ranges :: "processor2 \<Rightarrow> py_error + (groups \<times> processor2)" where
  "group_values_by_ranges p =
     (case get_results2 p of
        Inl e \<Rightarrow> Inl e
      | Inr (rs, p') \<Rightarrow>
          Inr (\<lparr>low = filter (\<lambda>v. v < 10) rs,
                medium = filter (\<lambda>v. 10 \<le> v \<and> v \<le> 50) rs,
                high = filter (\<lambda>v. v > 50) rs\<rparr>, p'))"

section \<open>\<^verbatim>\<open>main.py\<close>: DataProcessor\<close>

text \<open>The field \<^verbatim>\<open>_results\<close> is \<^verbatim>\<open>None\<close> until \<^verbatim>\<open>process_data\<close> has run.\<close>

record processor =
  data :: "int list"
  processed :: bool
  results :: "real list option"

definition DataProcessor :: "int list \<Rightarrow> processor" where
  "DataProcessor d = \<lparr>data = d, processed = False, results = None\<rparr>"

text \<open>The loop of \<^verbatim>\<open>process_data\<close>, with both operations written in its body.\<close>

fun process_loop :: "int list \<Rightarrow> real list \<Rightarrow> py_error + real list" where
  "process_loop [] temp_results = Inr temp_results"
| "process_loop (num # rest) temp_results =
     (case (if num mod 2 = 0 then Inr (of_int (num ^ 2))
            else math_sqrt_num (of_int \<bar>num\<bar>)) of
        Inl e \<Rightarrow> Inl e
      | Inr res \<Rightarrow>
          (case (if res > 100 then num_div res 10
                 else if res < 1 then Inr (round_double (res * 10))
                 else Inr res) of
             Inl e \<Rightarrow> Inl e
           | Inr res' \<Rightarrow> process_loop rest (temp_results @ [res'])))"

definition process_data :: "processor \<Rightarrow> py_error + processor" where
  "process_data p =
     (if data p = [] then Inl (ValueError msg_empty_data)
      else
        (case process_loop (data p) [] of
           Inl e \<Rightarrow> Inl e
         | Inr temp_results \<Rightarrow> Inr (p\<lparr>results := Some temp_results, processed := True\<rparr>)))"

definition get_results :: "processor \<Rightarrow> py_error + (real list option \<times> processor)" where
  "get_results p =
     (if \<not> processed p then
        (case process_data p of
           Inl e \<Rightarrow> Inl e
         | Inr p' \<Rightarrow> Inr (results p', p'))
      else Inr (results p, p))"

text \<open>\<^verbatim>\<open>sum\<close>, \<^verbatim>\<open>len\<close>, \<^verbatim>\<open>max\<close> and \<^verbatim>\<open>min\<close> raise \<^verbatim>\<open>TypeError\<close> on \<^verbatim>\<open>None\<close>.\<close>

definition calculate_std_dev :: "processor \<Rightarrow> py_error + pyfloat" where
  "calculate_std_dev p =
     (case results p of
        None \<Rightarrow> Inl TypeError
      | Some rs \<Rightarrow>
          (case float_div (py_sum (map Fin rs)) (length rs) of
             Inl e \<Rightarrow> Inl e
           | Inr mean \<Rightarrow>
               (case sum_squared_deviations rs mean (Fin 0) of
                  Inl e \<Rightarrow> Inl e
                | Inr s \<Rightarrow>
                    (case float_div s (length rs) of
                       Inl e \<Rightarrow> Inl e
                     | Inr variance \<Rightarrow> math_sqrt variance))))"

definition stats_of_results :: "processor \<Rightarrow> py_error + stats" where
  "stats_of_results p =
     (case results p of
        None \<Rightarrow> Inl TypeError
      | Some rs \<Rightarrow>
          (case float_div (py_sum (map Fin rs)) (length rs) of
             Inl e \<Rightarrow> Inl e
           | Inr m \<Rightarrow>
               (case py_max rs of
                  Inl e \<Rightarrow> Inl e
                | Inr mx \<Rightarrow>
                    (case py_min rs of
                       Inl e \<Rightarrow> Inl e
                     | Inr mn \<Rightarrow>
                         (case calculate_std_dev p of
                            Inl e \<Rightarrow> Inl e
                          | Inr sd \<Rightarrow>
                              Inr \<lparr>stats_mean = m, stats_max = mx, stats_min = mn,
                                   stats_std_dev = sd\<rparr>)))))"

definition calculate_stats :: "processor \<Rightarrow> py_error + (stats \<times> processor)" where
  "calculate_stats p =
     (case (if \<not> processed p then process_data p else Inr p) of
        Inl e \<Rightarrow> Inl e
      | Inr p' \<Rightarrow>
          (case stats_of_results p' of
             Inl e \<Rightarrow> Inl e
           | Inr st \<Rightarrow> Inr (st, p')))"

section \<open>\<^verbatim>\<open>main.py\<close>: DataAnalyzer\<close>

text \<open>The loop of \<^verbatim>\<open>find_outliers\<close> over \<^verbatim>\<open>enumerate(results)\<close>.\<close>

fun outliers_loop ::
  "(nat \<times> real) list \<Rightarrow> pyfloat \<Rightarrow> pyfloat \<Rightarrow> real \<Rightarrow> (nat \<times> real) list \<Rightarrow> (nat \<times> real) list" where
  "outliers_loop [] mean std_dev threshold outliers = outliers"
| "outliers_loop ((idx, val) # rest) mean std_dev threshold outliers =
     outliers_loop rest mean std_dev threshold
       (if float_gt (float_abs (float_sub (Fin val) mean)) (float_mul (Fin threshold) std_dev)
        then outliers @ [(idx, val)] else outliers)"

definition find_outliers :: "processor \<Rightarrow> real \<Rightarrow> py_error + ((nat \<times> real) list \<times> processor)" where
  "find_outliers p threshold =
     (case get_results p of
        Inl e \<Rightarrow> Inl e
      | Inr (res, p1) \<Rightarrow>
          (case calculate_stats p1 of
             Inl e \<Rightarrow> Inl e
           | Inr (st, p2) \<Rightarrow>
               (let mean = stats_mean st; std_dev = stats_std_dev st
                in (case res of
                      None \<Rightarrow> Inl TypeError
                    | Some rs \<Rightarrow>
                        Inr (outliers_loop (enumerate 0 rs) mean std_dev threshold [], p2)))))"

text \<open>The loop of \<^verbatim>\<open>group_values\<close>, an \<^verbatim>\<open>if / elif / else\<close> chain.\<close>

fun group_loop :: "real list \<Rightarrow> groups \<Rightarrow> groups" where
  "group_loop [] g = g"
| "group_loop (val # rest) g =
     group_loop rest
       (if val < 10 then g\<lparr>low := low g @ [val]\<rparr>
        else if 10 \<le> val \<and> val \<le> 50 then g\<lparr>medium := medium g @ [val]\<rparr>
        else g\<lparr>high := high g @ [val]\<rparr>)"

definition group_values :: "processor \<Rightarrow> py_error + (groups \<times> processor)" where
  "group_values p =
     (case get_results p of
        Inl e \<Rightarrow> Inl e
      | Inr (res, p') \<Rightarrow>
          (case res of
             None \<Rightarrow> Inl TypeError
           | Some rs \<Rightarrow> Inr (group_loop rs \<lparr>low = [], medium = [], high = []\<rparr>, p')))"

section \<open>ReportGenerator\<close>

subsection \<open>String formatting\<close>

text \<open>\<^verbatim>\<open>str(n)\<close> of a non-negative integer, as the f-string fields \<^verbatim>\<open>{idx}\<close> and
  \<^verbatim>\<open>{len(...)}\<close> print it: the decimal digits, code point 48 being the digit 0.\<close>

fun str_nat :: "nat \<Rightarrow> pystr" where
  "str_nat n = (if n < 10 then [48 + n] else str_nat (n div 10) @ [48 + n mod 10])"

declare str_nat.simps [simp del]

text \<open>The format \<^verbatim>\<open>:.2f\<close> of a finite number: the sign, the integer part, a point and two
  decimals of the value rounded to hundredths, ties to the even digit. An infinity is
  printed as \<^verbatim>\<open>inf\<close>, a NaN as \<^verbatim>\<open>nan\<close>.\<close>

definition format_2f :: "real \<Rightarrow> pystr" where
  "format_2f x =
     (let q = nat (round_half_even (\<bar>x\<bar> * 100))
      in (if x < 0 then ascii ''-'' else []) @ str_nat (q div 100) @ ascii ''.'' @
         [48 + (q mod 100) div 10, 48 + q mod 10])"

fun format_float_2f :: "pyfloat \<Rightarrow> pystr" where
  "format_float_2f (Fin x) = format_2f x"
| "format_float_2f PInf = ascii ''inf''"
| "format_float_2f NInf = ascii ''-inf''"
| "format_float_2f NaN = ascii ''nan''"

text \<open>\<^verbatim>\<open>sep.join(xs)\<close>.\<close>

fun py_join :: "pystr \<Rightarrow> pystr list \<Rightarrow> pystr" where
  "py_join sep [] = []"
| "py_join sep [x] = x"
| "py_join sep (x # y # ys) = x @ sep @ py_join sep (y # ys)"

subsection \<open>The literal parts of the report\<close>

text \<open>
  Both modules print the same Russian labels; they are given as code points. In the order
  of the definitions they read: the heading "statistical report"; "mean value: ";
  "maximum value: "; "minimum value: "; "standard deviation: "; a newline and the heading
  "outliers"; "index "; a newline and the heading "grouping of values";
  "low values (count): "; "medium values (count): "; "high values (count): ".
\<close>

definition lbl_header :: pystr where
  "lbl_header =
     [61, 61, 61, 32, 1057, 1090, 1072, 1090, 1080, 1089, 1090, 1080, 1095, 1077, 1089,
      1082, 1080, 1081, 32, 1086, 1090, 1095, 1077, 1090, 32, 61, 61, 61]"

definition lbl_mean :: pystr where
  "lbl_mean =
     [1057, 1088, 1077, 1076, 1085, 1077, 1077, 32, 1079, 1085, 1072, 1095, 1077, 1085,
      1080, 1077, 58, 32]"

definition lbl_max :: pystr where
  "lbl_max =
     [1052, 1072, 1082, 1089, 1080, 1084, 1072, 1083, 1100, 1085, 1086, 1077, 32, 1079,
      1085, 1072, 1095, 1077, 1085, 1080, 1077, 58, 32]"

definition lbl_min :: pystr where
  "lbl_min =
     [1052, 1080, 1085, 1080, 1084, 1072, 1083, 1100, 1085, 1086, 1077, 32, 1079, 1085,
      1072, 1095, 1077, 1085, 1080, 1077, 58, 32]"

definition lbl_std_dev :: pystr where
  "lbl_std_dev =
     [1057, 1090, 1072, 1085, 1076, 1072, 1088, 1090, 1085, 1086, 1077, 32, 1086, 1090,
      1082, 1083, 1086, 1085, 1077, 1085, 1080, 1077, 58, 32]"

definition lbl_outliers :: pystr where
  "lbl_outliers =
     [10, 61, 61, 61, 32, 1042, 1099, 1073, 1088, 1086, 1089, 1099, 32, 61, 61, 61]"

definition lbl_index :: pystr where
  "lbl_index =
     [1048, 1085, 1076, 1077, 1082, 1089, 32]"

definition lbl_grouping :: pystr where
  "lbl_grouping =
     [10, 61, 61, 61, 32, 1043, 1088, 1091, 1087, 1087, 1080, 1088, 1086, 1074, 1082,
      1072, 32, 1079, 1085, 1072, 1095, 1077, 1085, 1080, 1081, 32, 61, 61, 61]"

definition lbl_low :: pystr where
  "lbl_low =
     [1053, 1080, 1079, 1082, 1080, 1077, 32, 1079, 1085, 1072, 1095, 1077, 1085, 1080,
      1103, 32, 40, 1082, 1086, 1083, 45, 1074, 1086, 41, 58, 32]"

definition lbl_medium :: pystr where
  "lbl_medium =
     [1057, 1088, 1077, 1076, 1085, 1080, 1077, 32, 1079, 1085, 1072, 1095, 1077, 1085,
      1080, 1103, 32, 40, 1082, 1086, 1083, 45, 1074, 1086, 41, 58, 32]"

definition lbl_high :: pystr where
  "lbl_high =
     [1042, 1099, 1089, 1086, 1082, 1080, 1077, 32, 1079, 1085, 1072, 1095, 1077, 1085,
      1080, 1103, 32, 40, 1082, 1086, 1083, 45, 1074, 1086, 41, 58, 32]"

subsection \<open>\<^verbatim>\<open>main2.py\<close>: generate_text_report\<close>

definition generate_text_report2 :: "processor2 \<Rightarrow> py_error + (pystr \<times> processor2)" where
  "generate_text_report2 p =
     (case calculate_stats2 p of
        Inl e \<Rightarrow> Inl e
      | Inr (st, p1) \<Rightarrow>
          (case find_outliers2 p1 default_threshold of
             Inl e \<Rightarrow> Inl e
           | Inr (outliers, p2) \<Rightarrow>
               (case group_values_by_ranges p2 of
                  Inl e \<Rightarrow> Inl e
                | Inr (g, p3) \<Rightarrow>
                    (let report_lines =
                       [lbl_header,
                        lbl_mean @ format_float_2f (stats_mean st),
                        lbl_max @ format_2f (stats_max st),
                        lbl_min @ format_2f (stats_min st),
                        lbl_std_dev @ format_float_2f (stats_std_dev st),
                        lbl_outliers] @
                       map (\<lambda>(idx, val). lbl_index @ str_nat idx @ ascii '': '' @ format_2f val)
                         outliers @
                       [lbl_grouping,
                        lbl_low @ str_nat (length (low g)),
                        lbl_medium @ str_nat (length (medium g)),
                        lbl_high @ str_nat (length (high g))]
                     in Inr (py_join [10] report_lines, p3)))))"

subsection \<open>\<^verbatim>\<open>main.py\<close>: generate_text_report\<close>

text \<open>The loop that appends one line for each outlier to \<open>report\<close>.\<close>

fun outlier_lines_loop :: "(nat \<times> real) list \<Rightarrow> pystr list \<Rightarrow> pystr list" where
  "outlier_lines_loop [] report = report"
| "outlier_lines_loop ((idx, val) # rest) report =
     outlier_lines_loop rest
       (report @ [lbl_index @ str_nat idx @ ascii '': '' @ format_2f val])"

definition generate_text_report :: "processor \<Rightarrow> py_error + (pystr \<times> processor)" where
  "generate_text_report p =
     (case calculate_stats p of
        Inl e \<Rightarrow> Inl e
      | Inr (st, p1) \<Rightarrow>
          (case find_outliers p1 default_threshold of
             Inl e \<Rightarrow> Inl e
           | Inr (outliers, p2) \<Rightarrow>
               (case group_values p2 of
                  Inl e \<Rightarrow> Inl e
                | Inr (g, p3) \<Rightarrow>
                    (let report =
                       [lbl_header,
                        lbl_mean @ format_float_2f (stats_mean st),
                        lbl_max @ format_2f (stats_max st),
                        lbl_min @ format_2f (stats_min st),
                        lbl_std_dev @ format_float_2f (stats_std_dev st),
                        lbl_outliers];
                       report = outlier_lines_loop outliers report;
                       report = report @
                         [lbl_grouping,
                          lbl_low @ str_nat (length (low g)),
                          lbl_medium @ str_nat (length (medium g)),
                          lbl_high @ str_nat (length (high g))]
                     in Inr (py_join [10] report, p3)))))"

section \<open>The standalone formula\<close>

text \<open>
  In \<^verbatim>\<open>complex_operation\<close> of \<^verbatim>\<open>main.py\<close> and \<^verbatim>\<open>perform_complex_calculation\<close> of
  \<^verbatim>\<open>main2.py\<close>, \<open>result\<close> is the int \<open>x * y\<close> until \<^verbatim>\<open>result /= z\<close> makes it a float: the
  division of two ints. On an int \<^verbatim>\<open>abs(result) + 1\<close> is exact; on a float the addition
  is rounded. The optional argument \<open>z\<close> defaults to \<^verbatim>\<open>None\<close>.
\<close>

datatype pynum = PyInt int | PyFloat real

fun num_positive :: "pynum \<Rightarrow> bool" where
  "num_positive (PyInt i) = (i > 0)"
| "num_positive (PyFloat r) = (r > 0)"

fun num_float :: "pynum \<Rightarrow> pyfloat" where
  "num_float (PyInt i) = Fin (of_int i)"
| "num_float (PyFloat r) = Fin r"

fun abs_plus_one :: "pynum \<Rightarrow> pyfloat" where
  "abs_plus_one (PyInt i) = Fin (of_int (\<bar>i\<bar> + 1))"
| "abs_plus_one (PyFloat r) = float_add (Fin \<bar>r\<bar>) (Fin 1)"

definition complex_operation ::
  "(real \<Rightarrow> real) \<Rightarrow> int \<Rightarrow> int \<Rightarrow> int option \<Rightarrow> py_error + pyfloat" where
  "complex_operation libm_log x y z =
     (case (case z of
              None \<Rightarrow> Inr (PyInt (x * y))
            | Some z' \<Rightarrow>
                if z' = 0 then Inl (ValueError msg_z_zero)
                else (case int_truediv (x * y) z' of
                        Inl e \<Rightarrow> Inl e
                      | Inr q \<Rightarrow> Inr (PyFloat q))) of
        Inl e \<Rightarrow> Inl e
      | Inr result \<Rightarrow>
          (case (if num_positive result then math_log libm_log (num_float result)
                 else math_log libm_log (abs_plus_one result)) of
             Inl e \<Rightarrow> Inl e
           | Inr result' \<Rightarrow> Inr (float_mul result' (Fin math_pi))))"

definition perform_complex_calculation ::
  "(real \<Rightarrow> real) \<Rightarrow> int \<Rightarrow> int \<Rightarrow> int option \<Rightarrow> py_error + pyfloat" where
  "perform_complex_calculation libm_log x y z =
     (case (case z of
              None \<Rightarrow> Inr (PyInt (x * y))
            | Some z' \<Rightarrow>
                if z' = 0 then Inl (ValueError msg_divisor_zero)
                else (case int_truediv (x * y) z' of
                        Inl e \<Rightarrow> Inl e
                      | Inr q \<Rightarrow> Inr (PyFloat q))) of
        Inl e \<Rightarrow> Inl e
      | Inr result \<Rightarrow>
          (let log_base = (if num_positive result then num_float result
                           else abs_plus_one result)
           in case math_log libm_log log_base of
                Inl e \<Rightarrow> Inl e
              | Inr l \<Rightarrow> Inr (float_mul l (Fin math_pi))))"

section \<open>Functions named by the specification\<close>

text \<open>
  The specification names the parity rule \<open>selectTransform\<close>: the square of an even
  number, the square root of the absolute value of an odd one. Neither module has a
  function of that name; both write the rule inside the loop of \<^verbatim>\<open>process_data\<close>.
  \<open>process_value n\<close> is \<open>adjustRange(selectTransform(n))\<close>, and \<open>process_values D\<close> the
  list of these for a raw dataset, or the first error.
\<close>

definition selectTransform :: "int \<Rightarrow> py_error + real" where
  "selectTransform n =
     (if even n then Inr (of_int (n ^ 2)) else math_sqrt_num (of_int \<bar>n\<bar>))"

definition process_value :: "int \<Rightarrow> py_error + real" where
  "process_value n =
     (case selectTransform n of Inl e \<Rightarrow> Inl e | Inr v \<Rightarrow> adjust_value_range v)"

fun process_values :: "int list \<Rightarrow> py_error + real list" where
  "process_values [] = Inr []"
| "process_values (n # ns) =
     (case process_value n of
        Inl e \<Rightarrow> Inl e
      | Inr v \<Rightarrow> (case process_values ns of Inl e \<Rightarrow> Inl e | Inr vs \<Rightarrow> Inr (v # vs)))"

text \<open>The integers beyond the range of the transform: an even number whose square
  divided by 10, or an odd number whose absolute value, is no double.\<close>

definition overflows :: "int \<Rightarrow> bool" where
  "overflows n =
     (if even n then dbl_overflow \<le> of_int (n ^ 2) / 10 else dbl_overflow \<le> of_int \<bar>n\<bar>)"

text \<open>The value of \<open>process_value n\<close> when \<open>n\<close> is within the range.\<close>

definition process_result :: "int \<Rightarrow> real" where
  "process_result n =
     (let v = (if even n then of_int (n ^ 2)
               else round_double (sqrt (round_double (of_int \<bar>n\<bar>))))
      in if v > 100 then round_double (v / 10)
         else if v < 1 then round_double (v * 10)
         else v)"

text \<open>A float that is zero or more, or plus infinity.\<close>

fun nonneg_float :: "pyfloat \<Rightarrow> bool" where
  "nonneg_float (Fin r) = (0 \<le> r)"
| "nonneg_float PInf = True"
| "nonneg_float NInf = False"
| "nonneg_float NaN = False"

text \<open>
  The argument of the logarithm in the specification's \<open>compute\<close>: with \<open>r\<close> the product,
  or the rounded quotient of the product by \<open>z\<close> when \<open>z\<close> is present, it is \<open>r\<close> if
  \<open>r > 0\<close> and \<open>|r| + 1\<close> otherwise. The quotient is beyond the range of the doubles when
  \<open>quotient_overflows\<close>.
\<close>

definition compute_base :: "int \<Rightarrow> int \<Rightarrow> int option \<Rightarrow> pyfloat" where
  "compute_base x y z =
     (case z of
        None \<Rightarrow> if x * y > 0 then Fin (of_int (x * y)) else Fin (of_int (\<bar>x * y\<bar> + 1))
      | Some z' \<Rightarrow>
          (let r = round_double (of_int (x * y) / of_int z')
           in if r > 0 then Fin r else fl (\<bar>r\<bar> + 1)))"

definition quotient_overflows :: "int \<Rightarrow> int \<Rightarrow> int option \<Rightarrow> bool" where
  "quotient_overflows x y z =
     (case z of
        None \<Rightarrow> False
      | Some z' \<Rightarrow> z' \<noteq> 0 \<and> dbl_overflow \<le> \<bar>of_int (x * y) / of_int z'\<bar>)"

text \<open>The outliers and the groups of a list of processed values, as the specification
  describes them. The outliers are the pairs of an index and its value, by increasing
  index, whose value passes the test against the mean and the standard deviation.\<close>

definition spec_findOutliers :: "stats \<Rightarrow> real list \<Rightarrow> real \<Rightarrow> (nat \<times> real) list" where
  "spec_findOutliers st vs t =
     map (\<lambda>i. (i, vs ! i))
       (filter (\<lambda>i. is_outlier t (stats_mean st) (stats_std_dev st) (vs ! i))
          [0..<length vs])"

definition spec_groups :: "real list \<Rightarrow> groups" where
  "spec_groups vs =
     \<lparr>low = filter (\<lambda>v. v < 10) vs,
      medium = filter (\<lambda>v. 10 \<le> v \<and> v \<le> 50) vs,
      high = filter (\<lambda>v. v > 50) vs\<rparr>"

text \<open>The report for given statistics, outliers and groups: the sections in the fixed
  order, joined by newlines.\<close>

definition report_text :: "stats \<Rightarrow> (nat \<times> real) list \<Rightarrow> groups \<Rightarrow> pystr" where
  "report_text st outliers g =
     py_join [10]
       ([lbl_header,
         lbl_mean @ format_float_2f (stats_mean st),
         lbl_max @ format_2f (stats_max st),
         lbl_min @ format_2f (stats_min st),
         lbl_std_dev @ format_float_2f (stats_std_dev st),
         lbl_outliers] @
        map (\<lambda>(idx, val). lbl_index @ str_nat idx @ ascii '': '' @ format_2f val) outliers @
        [lbl_grouping,
         lbl_low @ str_nat (length (low g)),
         lbl_medium @ str_nat (length (medium g)),
         lbl_high @ str_nat (length (high g))])"

section \<open>States of the processors\<close>

text \<open>A processor of \<^verbatim>\<open>main.py\<close>, and one of \<^verbatim>\<open>main2.py\<close>, that has processed the raw
  dataset \<open>D\<close> and holds the values \<open>rs\<close>.\<close>

definition processed_with :: "int list \<Rightarrow> real list \<Rightarrow> processor" where
  "processed_with D rs = \<lparr>data = D, processed = True, results = Some rs\<rparr>"

definition processed_with2 :: "int list \<Rightarrow> real list \<Rightarrow> processor2" where
  "processed_with2 D rs = \<lparr>raw_data = D, results2 = \<lparr>pd_values = rs, is_processed = True\<rparr>\<rparr>"

text \<open>
  A processor of \<^verbatim>\<open>main.py\<close> and one of \<^verbatim>\<open>main2.py\<close> correspond when they hold the same
  raw dataset, agree on whether it has been processed and, if it has, hold the same
  processed values. Before processing the one holds \<^verbatim>\<open>None\<close> and the other an empty
  list; no method returns either.
\<close>

definition related :: "processor \<Rightarrow> processor2 \<Rightarrow> bool" where
  "related p q \<longleftrightarrow>
     data p = raw_data q \<and> processed p = is_processed (results2 q) \<and>
     (processed p \<longrightarrow> results p = Some (pd_values (results2 q)))"

section \<open>Two doubles\<close>



section \<open>Rounding to a double\<close>

lemma round_half_even_of_int: "round_half_even (of_int k) = k"
  by (simp add: round_half_even_def)

lemma round_half_even_ge: "of_int k \<le> y \<Longrightarrow> k \<le> round_half_even y"
proof -
  assume "of_int k \<le> y"
  then have "k \<le> \<lfloor>y\<rfloor>" by (simp add: le_floor_iff)
  then show ?thesis by (simp add: round_half_even_def Let_def)
qed

lemma round_half_even_le: "y \<le> of_int k \<Longrightarrow> round_half_even y \<le> k"
proof (cases "y = of_int k")
  case True
  then show ?thesis by (simp add: round_half_even_of_int)
next
  case False
  assume "y \<le> of_int k"
  with False have "y < of_int k" by simp
  then have "\<lfloor>y\<rfloor> < k" by (simp add: floor_less_iff)
  then show ?thesis by (simp add: round_half_even_def Let_def)
qed

lemma two_powi_pos: "0 < (2::real) powi t"
  by (simp add: power_int_def)

lemma two_powi_lessD: "(2::real) powi a < 2 powi b \<Longrightarrow> a < b"
proof (rule ccontr)
  assume "(2::real) powi a < 2 powi b" "\<not> a < b"
  then show False using power_int_increasing [of b a "2::real"] by simp
qed

lemma round_double_nonneg: "0 \<le> x \<Longrightarrow> 0 \<le> round_double x"
  unfolding round_double_def
  using round_half_even_ge [of 0 "x / 2 powi ulp_exp x"] two_powi_pos [of "ulp_exp x"]
  by (simp add: divide_nonneg_pos)

lemma round_double_0: "round_double 0 = 0"
  by (simp add: round_double_def round_half_even_def)

lemma two_powr_powi: "(2::real) powr of_int t = 2 powi t"
  by (simp add: powr_real_of_int')

lemma floor_log2_bounds:
  assumes "x \<noteq> 0"
  shows "2 powi \<lfloor>log 2 \<bar>x\<bar>\<rfloor> \<le> \<bar>x\<bar>" "\<bar>x\<bar> < 2 powi (\<lfloor>log 2 \<bar>x\<bar>\<rfloor> + 1)"
proof -
  from assms have "0 < \<bar>x\<bar>" by simp
  then have "2 powr of_int \<lfloor>log 2 \<bar>x\<bar>\<rfloor> \<le> \<bar>x\<bar> \<and> \<bar>x\<bar> < 2 powr of_int (\<lfloor>log 2 \<bar>x\<bar>\<rfloor> + 1)"
    using floor_log_eq_powr_iff [of "\<bar>x\<bar>" 2 "\<lfloor>log 2 \<bar>x\<bar>\<rfloor>"] by simp
  then show "2 powi \<lfloor>log 2 \<bar>x\<bar>\<rfloor> \<le> \<bar>x\<bar>" "\<bar>x\<bar> < 2 powi (\<lfloor>log 2 \<bar>x\<bar>\<rfloor> + 1)"
    by (simp_all only: two_powr_powi)
qed



lemma ulp_exp_subnormal:
  assumes "x \<noteq> 0" "\<bar>x\<bar> < 2 powi (- 1022)"
  shows "ulp_exp x = - 1074"
proof -
  have "\<lfloor>log 2 \<bar>x\<bar>\<rfloor> < - 1022"
  proof (rule ccontr)
    assume "\<not> \<lfloor>log 2 \<bar>x\<bar>\<rfloor> < - 1022"
    then have "(2::real) powi (- 1022) \<le> 2 powi \<lfloor>log 2 \<bar>x\<bar>\<rfloor>"
      by (intro power_int_increasing) simp_all
    with floor_log2_bounds(1) [OF assms(1)] assms(2) show False by linarith
  qed
  then show ?thesis by (simp add: ulp_exp_def)
qed

lemma round_double_subnormal:
  assumes "\<bar>x\<bar> < 2 powi (- 1022)"
  shows "round_double x = of_int (round_half_even (x / 2 powi (- 1074))) * 2 powi (- 1074)"
proof (cases "x = 0")
  case True
  then show ?thesis by (simp add: round_double_0 round_half_even_def)
next
  case False
  then show ?thesis using ulp_exp_subnormal [OF False assms] by (simp add: round_double_def)
qed

lemma round_double_of_int:
  assumes "\<bar>k\<bar> < 2 ^ 53"
  shows "round_double (of_int k) = of_int k"
proof (cases "k = 0")
  case True
  then show ?thesis by (simp add: round_double_0)
next
  case False
  define e where "e = \<lfloor>log 2 \<bar>real_of_int k\<bar>\<rfloor>"
  have k0: "real_of_int k \<noteq> 0" using False by simp
  note b = floor_log2_bounds [OF k0, folded e_def]
  from False have "1 \<le> \<bar>k\<bar>" by simp
  then have "real_of_int 1 \<le> real_of_int \<bar>k\<bar>" by (simp only: of_int_le_iff)
  then have "1 \<le> \<bar>real_of_int k\<bar>" by simp
  with b(2) have "(2::real) powi 0 < 2 powi (e + 1)" by simp
  then have e0: "0 \<le> e"
    using two_powi_lessD [of 0 "e + 1"] by simp
  from assms have "real_of_int \<bar>k\<bar> < real_of_int (2 ^ 53)" by (simp only: of_int_less_iff)
  then have "\<bar>real_of_int k\<bar> < 2 ^ 53" by simp
  with b(1) have "(2::real) powi e < 2 powi 53" by simp
  then have e53: "e < 53"
    by (rule two_powi_lessD)
  have t: "ulp_exp (of_int k) = e - 52"
    using e0 by (simp add: ulp_exp_def e_def)
  define m where "m = nat (52 - e)"
  have p: "(2::real) powi (e - 52) = 1 / 2 ^ m"
    using e53 by (simp add: power_int_def m_def field_simps)
  have "real_of_int k / 2 powi (e - 52) = of_int (k * 2 ^ m)"
    by (simp add: p)
  then have "round_half_even (real_of_int k / 2 powi (e - 52)) = k * 2 ^ m"
    by (simp only: round_half_even_of_int)
  then show ?thesis
    by (simp add: round_double_def t p)
qed

lemma round_double_numeral [simp]:
  "(numeral w :: int) < 2 ^ 53 \<Longrightarrow> round_double (numeral w) = numeral w"
  using round_double_of_int [of "numeral w"] by simp

lemma round_double_1 [simp]: "round_double 1 = 1"
  using round_double_of_int [of 1] by simp

lemma round_double_le_pow2:
  assumes x: "\<bar>x\<bar> \<le> 2 powi k" and k: "- 1022 \<le> k"
  shows "\<bar>round_double x\<bar> \<le> 2 powi k"
proof (cases "x = 0")
  case True
  then show ?thesis using two_powi_pos [of k] by (simp add: round_double_0)
next
  case False
  define t where "t = ulp_exp x"
  have "\<lfloor>log 2 \<bar>x\<bar>\<rfloor> \<le> k"
  proof (rule ccontr)
    assume "\<not> \<lfloor>log 2 \<bar>x\<bar>\<rfloor> \<le> k"
    then have "(2::real) powi (k + 1) \<le> 2 powi \<lfloor>log 2 \<bar>x\<bar>\<rfloor>"
      by (intro power_int_increasing) simp_all
    moreover have "(2::real) powi k < 2 powi (k + 1)"
      by (rule power_int_strict_increasing) simp_all
    ultimately show False using floor_log2_bounds(1) [OF False] x by linarith
  qed
  with k have tk: "t \<le> k - 52" by (simp add: t_def ulp_exp_def)
  define m where "m = nat (k - t)"
  have split: "(2::real) powi k = 2 ^ m * 2 powi t"
  proof -
    have "(2::real) powi k = 2 powi (int m + t)" using tk by (simp add: m_def)
    also have "\<dots> = 2 powi int m * 2 powi t" by (rule power_int_add) simp
    finally show ?thesis by simp
  qed
  have u: "0 < (2::real) powi t" by (rule two_powi_pos)
  have q: "\<bar>x\<bar> / 2 powi t \<le> 2 ^ m"
    using x u unfolding split by (simp add: pos_divide_le_eq)
  have "x / 2 powi t \<le> \<bar>x\<bar> / 2 powi t"
    using u by (simp add: divide_right_mono)
  moreover have "(- \<bar>x\<bar>) / 2 powi t \<le> x / 2 powi t"
    using u by (intro divide_right_mono) simp_all
  ultimately have "x / 2 powi t \<le> of_int (2 ^ m)" "of_int (- (2 ^ m)) \<le> x / 2 powi t"
    using q by simp_all
  then have "round_half_even (x / 2 powi t) \<le> 2 ^ m" "- (2 ^ m) \<le> round_half_even (x / 2 powi t)"
    by (auto intro: round_half_even_le round_half_even_ge)
  then have "\<bar>round_half_even (x / 2 powi t)\<bar> \<le> 2 ^ m"
    by simp
  then have "real_of_int \<bar>round_half_even (x / 2 powi t)\<bar> \<le> real_of_int (2 ^ m)"
    by (simp only: of_int_le_iff)
  then have "\<bar>real_of_int (round_half_even (x / 2 powi t))\<bar> \<le> 2 ^ m"
    by simp
  then have "\<bar>real_of_int (round_half_even (x / 2 powi t))\<bar> * 2 powi t \<le> 2 ^ m * 2 powi t"
    using u by (simp add: mult_right_mono)
  then show ?thesis
    using u by (simp add: round_double_def t_def [symmetric] split abs_mult)
qed

lemma round_double_ge_1:
  assumes "1 \<le> x"
  shows "1 \<le> round_double x"
proof -
  define e where "e = \<lfloor>log 2 \<bar>x\<bar>\<rfloor>"
  have x0: "x \<noteq> 0" using assms by simp
  note b = floor_log2_bounds [OF x0, folded e_def]
  from assms b(2) have "(2::real) powi 0 < 2 powi (e + 1)" by simp
  then have e0: "0 \<le> e" using two_powi_lessD [of 0 "e + 1"] by simp
  then have t: "ulp_exp x = e - 52" by (simp add: ulp_exp_def e_def)
  have u: "0 < (2::real) powi (e - 52)" by (rule two_powi_pos)
  have split: "(2::real) powi e = 2 ^ 52 * 2 powi (e - 52)"
  proof -
    have "(2::real) powi e = 2 powi (52 + (e - 52))" by simp
    also have "\<dots> = 2 powi 52 * 2 powi (e - 52)" by (rule power_int_add) simp
    finally show ?thesis by simp
  qed
  from b(1) assms have "2 ^ 52 * 2 powi (e - 52) \<le> x" unfolding split by simp
  then have "of_int (2 ^ 52) \<le> x / 2 powi (e - 52)"
    using u by (simp add: pos_le_divide_eq)
  then have "2 ^ 52 \<le> round_half_even (x / 2 powi (e - 52))"
    by (rule round_half_even_ge)
  then have "real_of_int (2 ^ 52) \<le> real_of_int (round_half_even (x / 2 powi (e - 52)))"
    by (simp only: of_int_le_iff)
  then have "(2::real) ^ 52 \<le> of_int (round_half_even (x / 2 powi (e - 52)))"
    by simp
  then have "2 ^ 52 * 2 powi (e - 52) \<le> round_double x"
    using u by (simp add: round_double_def t mult_right_mono)
  moreover have "(1::real) \<le> 2 powi e"
    using e0 by (simp add: power_int_def)
  ultimately show ?thesis unfolding split [symmetric] by linarith
qed

section \<open>The transform within and beyond the range\<close>

lemma dbl_overflow_pos: "0 < dbl_overflow"
  by (simp add: dbl_overflow_def)

lemma pow512_small: "(2::real) ^ 512 / 10 < dbl_overflow"
  by (simp add: dbl_overflow_def)

lemma dbl_overflow_le_pow: "dbl_overflow \<le> 2 ^ 1024"
  by (simp add: dbl_overflow_def)

lemma sqrt_round_bound:
  assumes "0 \<le> x" "x < dbl_overflow"
  shows "0 \<le> round_double (sqrt (round_double x))"
    and "round_double (sqrt (round_double x)) \<le> 2 ^ 512"
proof -
  have x1: "0 \<le> round_double x" using assms(1) by (rule round_double_nonneg)
  then show "0 \<le> round_double (sqrt (round_double x))"
    by (simp add: round_double_nonneg)
  have "\<bar>x\<bar> \<le> 2 powi 1024" using assms dbl_overflow_le_pow by simp
  then have "\<bar>round_double x\<bar> \<le> 2 powi 1024" by (rule round_double_le_pow2) simp
  then have "round_double x \<le> (2 ^ 512) ^ 2" by simp
  then have "sqrt (round_double x) \<le> 2 ^ 512"
    using real_le_lsqrt x1 by (simp add: real_le_lsqrt)
  then have "\<bar>sqrt (round_double x)\<bar> \<le> 2 powi 512" using x1 by simp
  then have "\<bar>round_double (sqrt (round_double x))\<bar> \<le> 2 powi 512"
    by (rule round_double_le_pow2) simp
  then show "round_double (sqrt (round_double x)) \<le> 2 ^ 512" by simp
qed

lemma adjust_value_range_small:
  "0 \<le> v \<Longrightarrow> v / 10 < dbl_overflow \<Longrightarrow>
     adjust_value_range v =
       Inr (if v > 100 then round_double (v / 10)
            else if v < 1 then round_double (v * 10) else v)"
  by (simp add: adjust_value_range_def num_div_def)

lemma process_value_eq:
  "process_value n = (if overflows n then Inl OverflowError else Inr (process_result n))"
proof (cases "even n")
  case True
  show ?thesis
  proof (cases "overflows n")
    case o: True
    with True dbl_overflow_pos have "(100::real) < of_int (n ^ 2)"
      by (simp add: overflows_def dbl_overflow_def)
    with o True show ?thesis
      by (simp add: process_value_def selectTransform_def adjust_value_range_def
            num_div_def overflows_def)
  next
    case o: False
    with True have "real_of_int (n ^ 2) / 10 < dbl_overflow"
      by (simp add: overflows_def)
    with o True show ?thesis
      by (simp add: process_value_def selectTransform_def adjust_value_range_small
            process_result_def)
  qed
next
  case False
  show ?thesis
  proof (cases "overflows n")
    case o: True
    with False show ?thesis
      by (simp add: process_value_def selectTransform_def math_sqrt_num_def overflows_def)
  next
    case o: False
    with False have lt: "real_of_int \<bar>n\<bar> < dbl_overflow"
      by (simp add: overflows_def)
    have nn: "0 \<le> real_of_int \<bar>n\<bar>" by simp
    note b = sqrt_round_bound [OF nn lt]
    from b(2) pow512_small
    have "round_double (sqrt (round_double (real_of_int \<bar>n\<bar>))) / 10 < dbl_overflow"
      by linarith
    with b(1) o False lt show ?thesis
      by (simp add: process_value_def selectTransform_def math_sqrt_num_def
            adjust_value_range_small process_result_def)
  qed
qed

lemma process_loop_step:
  "(case (if num mod 2 = 0 then Inr (of_int (num ^ 2))
          else math_sqrt_num (of_int \<bar>num\<bar>)) of
      Inl e \<Rightarrow> Inl e
    | Inr res \<Rightarrow>
        (if res > 100 then num_div res 10
         else if res < 1 then Inr (round_double (res * 10))
         else Inr res)) = process_value num"
  by (simp add: process_value_def selectTransform_def adjust_value_range_def
        even_iff_mod_2_eq_zero cong: sum.case_cong)

lemma process_loop_values:
  "process_loop ds acc =
     (case process_values ds of Inl e \<Rightarrow> Inl e | Inr vs \<Rightarrow> Inr (acc @ vs))"
proof (induction ds arbitrary: acc)
  case Nil
  show ?case by simp
next
  case (Cons n ds)
  have step: "process_loop (n # ds) acc =
      (case process_value n of Inl e \<Rightarrow> Inl e
       | Inr res' \<Rightarrow> process_loop ds (acc @ [res']))"
    unfolding process_loop_step [symmetric]
    by (simp split: sum.splits)
  show ?case
    by (cases "process_value n"; cases "process_values ds")
       (simp_all only: step process_values.simps sum.case Cons.IH append_assoc append_Cons
          append_Nil)
qed

lemma process_loop2_step:
  "(case (if num mod 2 = 0 then Inr (transform_even_number num)
          else transform_odd_number num) of
      Inl e \<Rightarrow> Inl e
    | Inr transformed \<Rightarrow> adjust_value_range transformed) = process_value num"
  by (simp add: process_value_def selectTransform_def transform_even_number_def
        transform_odd_number_def even_iff_mod_2_eq_zero)

lemma process_loop2_values:
  "process_loop2 ds acc =
     (case process_values ds of Inl e \<Rightarrow> Inl e | Inr vs \<Rightarrow> Inr (acc @ vs))"
proof (induction ds arbitrary: acc)
  case Nil
  show ?case by simp
next
  case (Cons n ds)
  have step: "process_loop2 (n # ds) acc =
      (case process_value n of Inl e \<Rightarrow> Inl e
       | Inr adjusted \<Rightarrow> process_loop2 ds (acc @ [adjusted]))"
    unfolding process_loop2_step [symmetric]
    by (simp split: sum.splits)
  show ?case
    by (cases "process_value n"; cases "process_values ds")
       (simp_all only: step process_values.simps sum.case Cons.IH append_assoc append_Cons
          append_Nil)
qed

lemma process_loop_eq: "process_loop ds acc = process_loop2 ds acc"
  by (simp only: process_loop_values process_loop2_values)

lemma process_values_Inr:
  "process_values ds = Inr vs \<Longrightarrow>
     length vs = length ds \<and> (\<forall>i<length ds. process_value (ds ! i) = Inr (vs ! i))"
proof (induction ds arbitrary: vs)
  case Nil
  then show ?case by simp
next
  case (Cons n ds)
  from Cons.prems obtain v ws where
    v: "process_value n = Inr v" and ws: "process_values ds = Inr ws" and vs: "vs = v # ws"
    by (auto split: sum.splits)
  from Cons.IH [OF ws] v vs show ?case
    by (auto simp: nth_Cons split: nat.splits)
qed

lemma process_values_Inl:
  "process_values ds = Inl e \<Longrightarrow> e = OverflowError \<and> (\<exists>n\<in>set ds. overflows n)"
proof (induction ds)
  case Nil
  then show ?case by simp
next
  case (Cons n ds)
  then show ?case
    by (auto simp: process_value_eq split: sum.splits if_splits)
qed

lemma process_values_total:
  "(\<forall>n\<in>set ds. \<not> overflows n) \<Longrightarrow> \<exists>vs. process_values ds = Inr vs"
  by (induction ds) (auto simp: process_value_eq)

lemma process_values_overflow:
  "\<exists>n\<in>set ds. overflows n \<Longrightarrow> process_values ds = Inl OverflowError"
proof -
  assume a: "\<exists>n\<in>set ds. overflows n"
  show ?thesis
  proof (cases "process_values ds")
    case (Inl e)
    with process_values_Inl [OF Inl] show ?thesis by simp
  next
    case (Inr vs)
    from a obtain i where "i < length ds" "overflows (ds ! i)"
      by (auto simp: in_set_conv_nth)
    with process_values_Inr [OF Inr] show ?thesis
      by (auto simp: process_value_eq)
  qed
qed

lemma sqrt_9: "sqrt 9 = 3"
  using real_sqrt_abs [of 3] by simp

section \<open>The range adjustment\<close>



section \<open>Processing a dataset\<close>

text \<open>
  Claim C1. For a non-empty list of integers \<open>D\<close>, \<^verbatim>\<open>process_data\<close> of either module
  raises \<^verbatim>\<open>OverflowError\<close> when an element of \<open>D\<close> is beyond the range of the transform
  (an even number whose square divided by 10, or an odd number whose absolute value, is
  no double). Otherwise it stores a list of the length of \<open>D\<close>, the same in both modules,
  whose element at each index \<open>i\<close> is the range adjustment of the parity transform of
  \<open>D ! i\<close>, computed in double precision. So a list is not produced for every non-empty
  \<open>D\<close>: it is not for the list holding \<open>2 ^ 515\<close>.
\<close>

theorem process_data_elementwise:
  assumes "D \<noteq> []"
  shows "((\<exists>n\<in>set D. overflows n) \<longrightarrow>
            process_data (DataProcessor D) = Inl OverflowError \<and>
            process_data2 (DataProcessor2 D) = Inl OverflowError) \<and>
         ((\<forall>n\<in>set D. \<not> overflows n) \<longrightarrow>
            (\<exists>rs. process_data (DataProcessor D) = Inr (processed_with D rs) \<and>
                  process_data2 (DataProcessor2 D) = Inr (processed_with2 D rs) \<and>
                  length rs = length D \<and>
                  (\<forall>i<length D. process_value (D ! i) = Inr (rs ! i) \<and>
                                 rs ! i = process_result (D ! i))))"
proof (intro conjI impI)
  assume "\<exists>n\<in>set D. overflows n"
  then have "process_values D = Inl OverflowError" by (rule process_values_overflow)
  with assms show "process_data (DataProcessor D) = Inl OverflowError"
    "process_data2 (DataProcessor2 D) = Inl OverflowError"
    by (simp_all add: process_data_def process_data2_def DataProcessor_def DataProcessor2_def
          process_loop_values process_loop2_values)
next
  assume ok: "\<forall>n\<in>set D. \<not> overflows n"
  then obtain rs where rs: "process_values D = Inr rs"
    using process_values_total by blast
  note e = process_values_Inr [OF rs]
  have "rs ! i = process_result (D ! i)" if "i < length D" for i
  proof -
    from that ok have "\<not> overflows (D ! i)" by simp
    moreover from e that have "process_value (D ! i) = Inr (rs ! i)" by simp
    ultimately show ?thesis by (simp add: process_value_eq)
  qed
  with assms rs e
  show "\<exists>rs. process_data (DataProcessor D) = Inr (processed_with D rs) \<and>
          process_data2 (DataProcessor2 D) = Inr (processed_with2 D rs) \<and>
          length rs = length D \<and>
          (\<forall>i<length D. process_value (D ! i) = Inr (rs ! i) \<and>
                         rs ! i = process_result (D ! i))"
    by (intro exI [of _ rs])
       (simp add: process_data_def process_data2_def DataProcessor_def DataProcessor2_def
          process_loop_values process_loop2_values processed_with_def processed_with2_def)
qed

theorem process_data_elementwise_counterexample:
  "process_data (DataProcessor [2 ^ 515]) = Inl OverflowError \<and>
   process_data2 (DataProcessor2 [2 ^ 515]) = Inl OverflowError"
proof -
  have "overflows (2 ^ 515)"
    by (simp add: overflows_def dbl_overflow_def)
  then have "process_values [2 ^ 515] = Inl OverflowError"
    by (simp add: process_value_eq)
  then show ?thesis
    by (simp add: process_data_def process_data2_def DataProcessor_def DataProcessor2_def
          process_loop_values process_loop2_values)
qed

theorem process_data_elementwise_witness:
  "process_data (DataProcessor [4, 9, 20]) = Inr (processed_with [4, 9, 20] [16, 3, 40]) \<and>
   process_data2 (DataProcessor2 [4, 9, 20]) = Inr (processed_with2 [4, 9, 20] [16, 3, 40]) \<and>
   process_data (DataProcessor [4, 2 ^ 515]) = Inl OverflowError"
proof -
  have ne: "[4, 9, 20] \<noteq> ([] :: int list)" "[4, 2 ^ 515] \<noteq> ([] :: int list)" by simp_all
  have ok: "\<forall>n\<in>set [4, 9, 20]. \<not> overflows n"
    by (simp add: overflows_def dbl_overflow_def)
  have bad: "\<exists>n\<in>set [4, 2 ^ 515]. overflows n"
    by (simp add: overflows_def dbl_overflow_def)
  from process_data_elementwise [OF ne(1)] ok obtain rs where
    a: "process_data (DataProcessor [4, 9, 20]) = Inr (processed_with [4, 9, 20] rs)"
       "process_data2 (DataProcessor2 [4, 9, 20]) = Inr (processed_with2 [4, 9, 20] rs)"
    and l: "length rs = 3"
    and e: "\<forall>i<3. rs ! i = process_result ([4, 9, 20] ! i)"
    by auto
  have "rs ! i = [16, 3, 40] ! i" if "i < 3" for i
  proof -
    from that consider "i = 0" | "i = 1" | "i = 2" by linarith
    then show ?thesis
      using e by cases (simp_all add: process_result_def sqrt_9)
  qed
  then have "rs = [16, 3, 40]"
    using l by (intro nth_equalityI) simp_all
  moreover from process_data_elementwise [OF ne(2)] bad
  have "process_data (DataProcessor [4, 2 ^ 515]) = Inl OverflowError" by blast
  ultimately show ?thesis using a by simp
qed

section \<open>Errors\<close>

text \<open>
  Claim C3. \<^verbatim>\<open>process_data\<close> fails with the \<^verbatim>\<open>ValueError\<close> for empty data whenever the
  raw dataset is empty. On a processor constructed from an empty dataset \<^verbatim>\<open>get_results\<close>
  and \<^verbatim>\<open>calculate_stats\<close> start the lazy processing and fail with that same error, in
  both modules.
\<close>

theorem process_data_empty_fails:
  "(data p = [] \<longrightarrow> process_data p = Inl (ValueError msg_empty_data)) \<and>
   (raw_data q = [] \<longrightarrow> process_data2 q = Inl (ValueError msg_empty_data)) \<and>
   get_results (DataProcessor []) = Inl (ValueError msg_empty_data) \<and>
   calculate_stats (DataProcessor []) = Inl (ValueError msg_empty_data) \<and>
   get_results2 (DataProcessor2 []) = Inl (ValueError msg_empty_data) \<and>
   calculate_stats2 (DataProcessor2 []) = Inl (ValueError msg_empty_data)"
  by (simp add: process_data_def process_data2_def get_results_def get_results2_def
        calculate_stats_def calculate_stats2_def DataProcessor_def DataProcessor2_def)

theorem process_data_empty_fails_witness:
  "process_data \<lparr>data = [], processed = True, results = Some [1]\<rparr> =
     Inl (ValueError msg_empty_data) \<and>
   process_data2 \<lparr>raw_data = [], results2 = \<lparr>pd_values = [1], is_processed = True\<rparr>\<rparr> =
     Inl (ValueError msg_empty_data)"
  using process_data_empty_fails
    [of "\<lparr>data = [], processed = True, results = Some [1]\<rparr>"
        "\<lparr>raw_data = [], results2 = \<lparr>pd_values = [1], is_processed = True\<rparr>\<rparr>"]
  by simp

text \<open>
  Claim C8. Called on the empty list, \<^verbatim>\<open>calculate_mean\<close> and \<^verbatim>\<open>calculate_basic_stats\<close>
  fail: the division by the length 0 raises \<^verbatim>\<open>ZeroDivisionError\<close>, and in
  \<^verbatim>\<open>calculate_basic_stats\<close> the mean is the first entry evaluated.
\<close>

theorem statistics_empty_fails:
  "calculate_mean [] = Inl ZeroDivisionError \<and>
   calculate_basic_stats [] = Inl ZeroDivisionError"
  by (simp add: calculate_mean_def calculate_basic_stats_def py_sum_def num_div_def)

section \<open>Statistics\<close>

lemma fl_nonneg: "0 \<le> x \<Longrightarrow> nonneg_float (fl x)"
  using dbl_overflow_pos by (simp add: fl_def round_double_nonneg)

lemma fl_not_nan: "fl x \<noteq> NaN"
  by (simp add: fl_def)

lemma fl_0: "fl 0 = Fin 0"
  using dbl_overflow_pos by (simp add: fl_def round_double_0)

lemma nonneg_float_not_nan: "nonneg_float x \<Longrightarrow> x \<noteq> NaN"
  by (cases x) simp_all

lemma float_add_Fin_not_nan: "acc \<noteq> NaN \<Longrightarrow> float_add acc (Fin v) \<noteq> NaN"
  by (cases acc) (simp_all add: fl_not_nan)

lemma foldl_float_add_not_nan:
  "acc \<noteq> NaN \<Longrightarrow> foldl float_add acc (map Fin vs) \<noteq> NaN"
  by (induction vs arbitrary: acc) (simp_all add: float_add_Fin_not_nan)

lemma py_sum_not_nan: "py_sum (map Fin vs) \<noteq> NaN"
  by (simp add: py_sum_def foldl_float_add_not_nan)

lemma float_div_not_nan:
  assumes "x \<noteq> NaN" "0 < n"
  shows "float_div x n = Inl OverflowError \<or> (\<exists>y. float_div x n = Inr y \<and> y \<noteq> NaN)"
  using assms by (cases x) (simp_all add: num_div_def)

lemma float_div_nonneg:
  assumes "nonneg_float x" "0 < n"
  shows "float_div x n = Inl OverflowError \<or> (\<exists>y. float_div x n = Inr y \<and> nonneg_float y)"
  using assms by (cases x) (simp_all add: num_div_def round_double_nonneg)

lemma calculate_mean_cases:
  assumes "vs \<noteq> []"
  shows "calculate_mean vs = Inl OverflowError \<or>
         (\<exists>m. calculate_mean vs = Inr m \<and> m \<noteq> NaN)"
  unfolding calculate_mean_def
  using assms by (intro float_div_not_nan py_sum_not_nan) simp

lemma float_sub_Fin_not_nan: "m \<noteq> NaN \<Longrightarrow> float_sub (Fin x) m \<noteq> NaN"
  by (cases m) (simp_all add: float_sub_def fl_not_nan)

lemma float_pow2_cases:
  assumes "d \<noteq> NaN"
  shows "float_pow2 d = Inl OverflowError \<or> (\<exists>s. float_pow2 d = Inr s \<and> nonneg_float s)"
  using assms by (cases d) (simp_all add: round_double_nonneg)

lemma float_add_nonneg:
  "nonneg_float a \<Longrightarrow> nonneg_float b \<Longrightarrow> nonneg_float (float_add a b)"
  by (cases a; cases b) (simp_all add: fl_nonneg)

lemma sum_squared_deviations_cases:
  assumes "m \<noteq> NaN" "nonneg_float acc"
  shows "sum_squared_deviations vs m acc = Inl OverflowError \<or>
         (\<exists>s. sum_squared_deviations vs m acc = Inr s \<and> nonneg_float s)"
  using assms(2)
proof (induction vs arbitrary: acc)
  case Nil
  then show ?case by simp
next
  case (Cons x xs)
  from float_pow2_cases [OF float_sub_Fin_not_nan [OF assms(1)], of x]
  show ?case
  proof
    assume "float_pow2 (float_sub (Fin x) m) = Inl OverflowError"
    then show ?thesis by simp
  next
    assume "\<exists>s. float_pow2 (float_sub (Fin x) m) = Inr s \<and> nonneg_float s"
    then obtain s where s: "float_pow2 (float_sub (Fin x) m) = Inr s" "nonneg_float s"
      by blast
    with Cons.prems have "nonneg_float (float_add acc s)" by (simp add: float_add_nonneg)
    from Cons.IH [OF this] s(1) show ?thesis by simp
  qed
qed

lemma math_sqrt_nonneg:
  assumes "nonneg_float v"
  shows "math_sqrt v = Inl OverflowError \<or> (\<exists>s. math_sqrt v = Inr s \<and> nonneg_float s)"
  using assms by (cases v) (simp_all add: math_sqrt_num_def round_double_nonneg)

lemma calculate_standard_deviation_cases:
  assumes "vs \<noteq> []"
  shows "calculate_standard_deviation vs = Inl OverflowError \<or>
         (\<exists>s. calculate_standard_deviation vs = Inr s \<and> nonneg_float s)"
proof -
  have n: "0 < length vs" using assms by simp
  from calculate_mean_cases [OF assms] show ?thesis
  proof
    assume "calculate_mean vs = Inl OverflowError"
    then show ?thesis by (simp add: calculate_standard_deviation_def)
  next
    assume "\<exists>m. calculate_mean vs = Inr m \<and> m \<noteq> NaN"
    then obtain m where m: "calculate_mean vs = Inr m" "m \<noteq> NaN" by blast
    have z: "nonneg_float (Fin 0)" by simp
    from sum_squared_deviations_cases [OF m(2) z, of vs] show ?thesis
    proof
      assume "sum_squared_deviations vs m (Fin 0) = Inl OverflowError"
      with m show ?thesis by (simp add: calculate_standard_deviation_def)
    next
      assume "\<exists>s. sum_squared_deviations vs m (Fin 0) = Inr s \<and> nonneg_float s"
      then obtain s where s: "sum_squared_deviations vs m (Fin 0) = Inr s" "nonneg_float s"
        by blast
      from float_div_nonneg [OF s(2) n] show ?thesis
      proof
        assume "float_div s (length vs) = Inl OverflowError"
        with m s show ?thesis by (simp add: calculate_standard_deviation_def)
      next
        assume "\<exists>y. float_div s (length vs) = Inr y \<and> nonneg_float y"
        then obtain y where y: "float_div s (length vs) = Inr y" "nonneg_float y" by blast
        from math_sqrt_nonneg [OF y(2)] m s y show ?thesis
          by (auto simp: calculate_standard_deviation_def)
      qed
    qed
  qed
qed

lemma calculate_std_dev_eq:
  "results p = Some rs \<Longrightarrow> calculate_std_dev p = calculate_standard_deviation rs"
  by (simp add: calculate_std_dev_def calculate_standard_deviation_def calculate_mean_def)

lemma stats_of_results_eq:
  "results p = Some rs \<Longrightarrow> stats_of_results p = calculate_basic_stats rs"
  by (simp add: stats_of_results_def calculate_basic_stats_def calculate_mean_def
        calculate_std_dev_eq cong: sum.case_cong)

lemma sum_squared_deviations_constant:
  assumes "\<forall>x\<in>set vs. x = c"
  shows "sum_squared_deviations vs (Fin c) (Fin 0) = Inr (Fin 0)"
  using assms dbl_overflow_pos
  by (induction vs) (simp_all add: float_sub_def fl_0 round_double_0)

lemma standard_deviation_constant:
  assumes "vs \<noteq> []" "\<forall>x\<in>set vs. x = c" "calculate_mean vs = Inr (Fin c)"
  shows "calculate_standard_deviation vs = Inr (Fin 0)"
  using assms dbl_overflow_pos
  by (simp add: calculate_standard_deviation_def sum_squared_deviations_constant num_div_def
        math_sqrt_num_def round_double_0)


section \<open>Statistics of particular lists\<close>











lemma round_double_neg_numeral [simp]:
  "(numeral w :: int) < 2 ^ 53 \<Longrightarrow> round_double (- numeral w) = - numeral w"
  using round_double_of_int [of "- numeral w"] by simp

lemma is_outlier_constant: "\<not> is_outlier t (Fin c) (Fin 0) c"
  using dbl_overflow_pos by (simp add: is_outlier_def float_sub_def fl_0)

lemma spec_findOutliers_constant:
  assumes "\<forall>v\<in>set rs. v = c" "stats_mean st = Fin c" "stats_std_dev st = Fin 0"
  shows "spec_findOutliers st rs t = []"
proof -
  have "rs ! i = c" if "i < length rs" for i
    using assms(1) that by (simp add: nth_mem)
  then show ?thesis
    using assms(2,3) by (simp add: spec_findOutliers_def filter_empty_conv is_outlier_constant)
qed

lemma sqrt_1600: "sqrt 1600 = 40"
  using real_sqrt_abs [of 40] by simp

lemma process_values_0_10: "process_values [0, 0, 0, 0, 10] = Inr [0, 0, 0, 0, 100]"
proof -
  have "\<not> overflows 0" "\<not> overflows 10" by (simp_all add: overflows_def dbl_overflow_def)
  then show ?thesis
    by (simp add: process_value_eq process_result_def round_double_0)
qed

lemma basic_stats_0_100:
  "calculate_basic_stats [0, 0, 0, 0, 100] =
     Inr \<lparr>stats_mean = Fin 20, stats_max = 100, stats_min = 0, stats_std_dev = Fin 40\<rparr>"
proof -
  have m: "calculate_mean [0, 0, 0, 0, 100] = Inr (Fin 20)"
    by (simp add: calculate_mean_def py_sum_def fl_def dbl_overflow_def num_div_def
          round_double_0)
  have s: "sum_squared_deviations [0, 0, 0, 0, 100] (Fin 20) (Fin 0) = Inr (Fin 8000)"
    by (simp add: float_sub_def fl_def dbl_overflow_def round_double_0)
  have "calculate_standard_deviation [0, 0, 0, 0, 100] = Inr (Fin 40)"
    by (simp add: calculate_standard_deviation_def m s num_div_def dbl_overflow_def
          math_sqrt_num_def sqrt_1600 del: sum_squared_deviations.simps)
  with m show ?thesis
    by (simp add: calculate_basic_stats_def)
qed




section \<open>The loops as list functions\<close>

lemma outliers_loop_filter:
  "outliers_loop xs m sd t acc = acc @ filter (\<lambda>(idx, val). is_outlier t m sd val) xs"
  by (induction xs m sd t acc rule: outliers_loop.induct) (simp_all add: is_outlier_def)

lemma group_loop_filter:
  "group_loop rs g =
     \<lparr>low = low g @ filter (\<lambda>v. v < 10) rs,
      medium = medium g @ filter (\<lambda>v. 10 \<le> v \<and> v \<le> 50) rs,
      high = high g @ filter (\<lambda>v. v > 50) rs\<rparr>"
  by (induction rs arbitrary: g) auto

lemma outlier_lines_loop_map:
  "outlier_lines_loop os report =
     report @ map (\<lambda>(idx, val). lbl_index @ str_nat idx @ ascii '': '' @ format_2f val) os"
  by (induction os report rule: outlier_lines_loop.induct) simp_all

lemma filter_enumerate:
  "filter (\<lambda>(idx, val). P val) (enumerate 0 vs) =
     map (\<lambda>i. (i, vs ! i)) (filter (\<lambda>i. P (vs ! i)) [0..<length vs])"
proof -
  have "enumerate 0 vs = map (\<lambda>i. (i, vs ! i)) [0..<length vs]"
    unfolding enumerate_eq_zip by (rule nth_equalityI) simp_all
  then show ?thesis by (simp add: filter_map comp_def)
qed

lemma spec_findOutliers_filter:
  "filter (\<lambda>(idx, val). is_outlier t (stats_mean st) (stats_std_dev st) val) (enumerate 0 rs) =
     spec_findOutliers st rs t"
  by (simp only: spec_findOutliers_def filter_enumerate)

lemma foldl_min_Min: "foldl min x xs = Min (set (x # xs))" for x :: real
proof -
  have "foldl min x xs = fold min xs x"
    by (simp add: foldl_conv_fold min.commute)
  also have "\<dots> = Min (set (x # xs))"
    by (rule Min.set_eq_fold [symmetric])
  finally show ?thesis .
qed

lemma py_min_in_set: "py_min vs = Inr m \<Longrightarrow> m \<in> set vs"
proof (cases vs)
  case Nil
  assume "py_min vs = Inr m"
  with Nil show ?thesis by simp
next
  case (Cons x xs)
  assume "py_min vs = Inr m"
  with Cons have "m = Min (set (x # xs))" by (simp add: foldl_min_Min del: set_simps)
  moreover have "Min (set (x # xs)) \<in> set (x # xs)" by (intro Min_in) simp_all
  ultimately show ?thesis using Cons by simp
qed

lemma calculate_basic_stats_min:
  "calculate_basic_stats vs = Inr st \<Longrightarrow> stats_min st \<in> set vs"
  by (auto simp: calculate_basic_stats_def py_min_in_set split: sum.splits)

section \<open>Lazy processing\<close>

text \<open>
  \<^verbatim>\<open>process_data\<close> leaves a processed state behind. On a processed state every method
  returns without changing the state; on an unprocessed one it behaves as
  \<^verbatim>\<open>process_data\<close> followed by itself.
\<close>

lemma process_data_processed:
  "process_data p = Inr p' \<Longrightarrow> processed p' \<and> results p' \<noteq> None"
  by (auto simp: process_data_def split: if_splits sum.splits)

lemma process_data2_processed:
  "process_data2 q = Inr q' \<Longrightarrow> is_processed (results2 q')"
  by (auto simp: process_data2_def split: if_splits sum.splits)

lemma processed_with_simps:
  "processed (processed_with D rs)" "results (processed_with D rs) = Some rs"
  "is_processed (results2 (processed_with2 D rs))"
  "pd_values (results2 (processed_with2 D rs)) = rs"
  by (simp_all add: processed_with_def processed_with2_def)

lemma process_data_fresh:
  "D \<noteq> [] \<Longrightarrow> process_values D = Inr rs \<Longrightarrow>
     process_data (DataProcessor D) = Inr (processed_with D rs)"
  by (simp add: process_data_def DataProcessor_def processed_with_def process_loop_values)

lemma process_data2_fresh:
  "D \<noteq> [] \<Longrightarrow> process_values D = Inr rs \<Longrightarrow>
     process_data2 (DataProcessor2 D) = Inr (processed_with2 D rs)"
  by (simp add: process_data2_def DataProcessor2_def processed_with2_def process_loop2_values)

lemma process_data_fresh_error:
  "D \<noteq> [] \<Longrightarrow> process_values D = Inl e \<Longrightarrow> process_data (DataProcessor D) = Inl e"
  by (simp add: process_data_def DataProcessor_def process_loop_values)

lemma process_data2_fresh_error:
  "D \<noteq> [] \<Longrightarrow> process_values D = Inl e \<Longrightarrow> process_data2 (DataProcessor2 D) = Inl e"
  by (simp add: process_data2_def DataProcessor2_def process_loop2_values)

lemma fresh_unprocessed:
  "\<not> processed (DataProcessor D)" "\<not> is_processed (results2 (DataProcessor2 D))"
  by (simp_all add: DataProcessor_def DataProcessor2_def)

subsection \<open>On a processed state\<close>

lemma get_results_done:
  "processed p \<Longrightarrow> get_results p = Inr (results p, p)"
  by (simp add: get_results_def)

lemma get_results2_done:
  "is_processed (results2 q) \<Longrightarrow> get_results2 q = Inr (pd_values (results2 q), q)"
  by (simp add: get_results2_def)

lemma calculate_stats_done:
  "processed p \<Longrightarrow> results p = Some rs \<Longrightarrow>
     calculate_stats p = map_sum id (\<lambda>st. (st, p)) (calculate_basic_stats rs)"
  by (cases "calculate_basic_stats rs") (simp_all add: calculate_stats_def stats_of_results_eq)

lemma calculate_stats2_done:
  "is_processed (results2 q) \<Longrightarrow>
     calculate_stats2 q = map_sum id (\<lambda>st. (st, q)) (calculate_basic_stats (pd_values (results2 q)))"
  by (cases "calculate_basic_stats (pd_values (results2 q))")
     (simp_all add: calculate_stats2_def get_results2_done)

lemma find_outliers_done:
  "processed p \<Longrightarrow> results p = Some rs \<Longrightarrow>
     find_outliers p t =
       map_sum id (\<lambda>st. (spec_findOutliers st rs t, p)) (calculate_basic_stats rs)"
  by (cases "calculate_basic_stats rs")
     (simp_all add: find_outliers_def get_results_done calculate_stats_done
        outliers_loop_filter spec_findOutliers_filter)

lemma find_outliers2_done:
  "is_processed (results2 q) \<Longrightarrow>
     find_outliers2 q t =
       map_sum id (\<lambda>st. (spec_findOutliers st (pd_values (results2 q)) t, q))
         (calculate_basic_stats (pd_values (results2 q)))"
  by (cases "calculate_basic_stats (pd_values (results2 q))")
     (simp_all add: find_outliers2_def get_results2_done calculate_stats2_done
        spec_findOutliers_filter)

lemma group_values_done:
  "processed p \<Longrightarrow> results p = Some rs \<Longrightarrow> group_values p = Inr (spec_groups rs, p)"
  by (simp add: group_values_def get_results_done group_loop_filter spec_groups_def)

lemma group_values_by_ranges_done:
  "is_processed (results2 q) \<Longrightarrow>
     group_values_by_ranges q = Inr (spec_groups (pd_values (results2 q)), q)"
  by (simp add: group_values_by_ranges_def get_results2_done spec_groups_def)

lemma generate_text_report_done:
  "processed p \<Longrightarrow> results p = Some rs \<Longrightarrow>
     generate_text_report p =
       map_sum id
         (\<lambda>st. (report_text st (spec_findOutliers st rs default_threshold) (spec_groups rs), p))
         (calculate_basic_stats rs)"
  by (cases "calculate_basic_stats rs")
     (simp_all add: generate_text_report_def calculate_stats_done find_outliers_done
        group_values_done outlier_lines_loop_map report_text_def)

lemma generate_text_report2_done:
  "is_processed (results2 q) \<Longrightarrow>
     generate_text_report2 q =
       map_sum id
         (\<lambda>st. (report_text st (spec_findOutliers st (pd_values (results2 q)) default_threshold)
                   (spec_groups (pd_values (results2 q))), q))
         (calculate_basic_stats (pd_values (results2 q)))"
  by (cases "calculate_basic_stats (pd_values (results2 q))")
     (simp_all add: generate_text_report2_def calculate_stats2_done find_outliers2_done
        group_values_by_ranges_done report_text_def)

subsection \<open>On an unprocessed state\<close>

lemma get_results_lazy:
  "\<not> processed p \<Longrightarrow>
     get_results p = (case process_data p of Inl e \<Rightarrow> Inl e | Inr p' \<Rightarrow> get_results p')"
  by (auto simp: get_results_def dest: process_data_processed split: sum.splits)

lemma get_results2_lazy:
  "\<not> is_processed (results2 q) \<Longrightarrow>
     get_results2 q = (case process_data2 q of Inl e \<Rightarrow> Inl e | Inr q' \<Rightarrow> get_results2 q')"
  by (auto simp: get_results2_def dest: process_data2_processed split: sum.splits)

lemma calculate_stats_lazy:
  "\<not> processed p \<Longrightarrow>
     calculate_stats p = (case process_data p of Inl e \<Rightarrow> Inl e | Inr p' \<Rightarrow> calculate_stats p')"
  by (auto simp: calculate_stats_def dest: process_data_processed split: sum.splits)

lemma calculate_stats2_lazy:
  "\<not> is_processed (results2 q) \<Longrightarrow>
     calculate_stats2 q = (case process_data2 q of Inl e \<Rightarrow> Inl e | Inr q' \<Rightarrow> calculate_stats2 q')"
  by (auto simp: calculate_stats2_def get_results2_def dest: process_data2_processed split: sum.splits)

lemma find_outliers_lazy:
  "\<not> processed p \<Longrightarrow>
     find_outliers p t = (case process_data p of Inl e \<Rightarrow> Inl e | Inr p' \<Rightarrow> find_outliers p' t)"
  by (cases "process_data p")
     (auto simp: find_outliers_def get_results_def dest: process_data_processed)

lemma find_outliers2_lazy:
  "\<not> is_processed (results2 q) \<Longrightarrow>
     find_outliers2 q t = (case process_data2 q of Inl e \<Rightarrow> Inl e | Inr q' \<Rightarrow> find_outliers2 q' t)"
  by (cases "process_data2 q")
     (auto simp: find_outliers2_def get_results2_def dest: process_data2_processed)

lemma group_values_lazy:
  "\<not> processed p \<Longrightarrow>
     group_values p = (case process_data p of Inl e \<Rightarrow> Inl e | Inr p' \<Rightarrow> group_values p')"
  by (cases "process_data p")
     (auto simp: group_values_def get_results_def dest: process_data_processed)

lemma group_values_by_ranges_lazy:
  "\<not> is_processed (results2 q) \<Longrightarrow>
     group_values_by_ranges q =
       (case process_data2 q of Inl e \<Rightarrow> Inl e | Inr q' \<Rightarrow> group_values_by_ranges q')"
  by (cases "process_data2 q")
     (auto simp: group_values_by_ranges_def get_results2_def dest: process_data2_processed)

lemma generate_text_report_lazy:
  "\<not> processed p \<Longrightarrow>
     generate_text_report p =
       (case process_data p of Inl e \<Rightarrow> Inl e | Inr p' \<Rightarrow> generate_text_report p')"
  by (cases "process_data p")
     (simp_all add: generate_text_report_def calculate_stats_lazy)

lemma generate_text_report2_lazy:
  "\<not> is_processed (results2 q) \<Longrightarrow>
     generate_text_report2 q =
       (case process_data2 q of Inl e \<Rightarrow> Inl e | Inr q' \<Rightarrow> generate_text_report2 q')"
  by (cases "process_data2 q")
     (simp_all add: generate_text_report2_def calculate_stats2_lazy)

lemma fresh_lazy:
  assumes "D \<noteq> []" "process_values D = Inr rs"
  shows "get_results (DataProcessor D) = get_results (processed_with D rs)"
    and "calculate_stats (DataProcessor D) = calculate_stats (processed_with D rs)"
    and "find_outliers (DataProcessor D) t = find_outliers (processed_with D rs) t"
    and "group_values (DataProcessor D) = group_values (processed_with D rs)"
    and "generate_text_report (DataProcessor D) = generate_text_report (processed_with D rs)"
  using assms
  by (simp_all add: get_results_lazy calculate_stats_lazy find_outliers_lazy group_values_lazy
        generate_text_report_lazy fresh_unprocessed process_data_fresh)

lemma fresh2_lazy:
  assumes "D \<noteq> []" "process_values D = Inr rs"
  shows "get_results2 (DataProcessor2 D) = get_results2 (processed_with2 D rs)"
    and "calculate_stats2 (DataProcessor2 D) = calculate_stats2 (processed_with2 D rs)"
    and "find_outliers2 (DataProcessor2 D) t = find_outliers2 (processed_with2 D rs) t"
    and "group_values_by_ranges (DataProcessor2 D) =
           group_values_by_ranges (processed_with2 D rs)"
    and "generate_text_report2 (DataProcessor2 D) =
           generate_text_report2 (processed_with2 D rs)"
  using assms
  by (simp_all add: get_results2_lazy calculate_stats2_lazy find_outliers2_lazy
        group_values_by_ranges_lazy generate_text_report2_lazy fresh_unprocessed
        process_data2_fresh)

lemma fresh_error:
  assumes "D \<noteq> []" "process_values D = Inl e"
  shows "get_results (DataProcessor D) = Inl e"
    and "calculate_stats (DataProcessor D) = Inl e"
    and "find_outliers (DataProcessor D) t = Inl e"
    and "group_values (DataProcessor D) = Inl e"
    and "generate_text_report (DataProcessor D) = Inl e"
  using assms
  by (simp_all add: get_results_lazy calculate_stats_lazy find_outliers_lazy group_values_lazy
        generate_text_report_lazy fresh_unprocessed process_data_fresh_error)

lemma fresh2_error:
  assumes "D \<noteq> []" "process_values D = Inl e"
  shows "get_results2 (DataProcessor2 D) = Inl e"
    and "calculate_stats2 (DataProcessor2 D) = Inl e"
    and "find_outliers2 (DataProcessor2 D) t = Inl e"
    and "group_values_by_ranges (DataProcessor2 D) = Inl e"
    and "generate_text_report2 (DataProcessor2 D) = Inl e"
  using assms
  by (simp_all add: get_results2_lazy calculate_stats2_lazy find_outliers2_lazy
        group_values_by_ranges_lazy generate_text_report2_lazy fresh_unprocessed
        process_data2_fresh_error)

lemma empty_error:
  shows "get_results (DataProcessor []) = Inl (ValueError msg_empty_data)"
    and "calculate_stats (DataProcessor []) = Inl (ValueError msg_empty_data)"
    and "group_values (DataProcessor []) = Inl (ValueError msg_empty_data)"
    and "get_results2 (DataProcessor2 []) = Inl (ValueError msg_empty_data)"
    and "calculate_stats2 (DataProcessor2 []) = Inl (ValueError msg_empty_data)"
    and "group_values_by_ranges (DataProcessor2 []) = Inl (ValueError msg_empty_data)"
  by (simp_all add: get_results_def calculate_stats_def group_values_def get_results2_def
        calculate_stats2_def group_values_by_ranges_def process_data_def process_data2_def
        DataProcessor_def DataProcessor2_def)

section \<open>Equivalence of the two modules\<close>

lemma related_fresh: "related (DataProcessor D) (DataProcessor2 D)"
  by (simp add: related_def DataProcessor_def DataProcessor2_def)

lemma sim_process_data:
  "related p q \<Longrightarrow> rel_sum (=) related (process_data p) (process_data2 q)"
  by (cases "process_values (raw_data q)")
     (simp_all add: related_def process_data_def process_data2_def process_loop_values
        process_loop2_values)

lemma related_done:
  "related p q \<Longrightarrow> processed p \<Longrightarrow>
     is_processed (results2 q) \<and> results p = Some (pd_values (results2 q))"
  by (simp add: related_def)

lemma sim_done:
  assumes "related p q" "processed p"
  shows "rel_sum (=) (rel_prod (\<lambda>r r'. r = Some r') related) (get_results p) (get_results2 q)"
    and "rel_sum (=) (rel_prod (=) related) (calculate_stats p) (calculate_stats2 q)"
    and "rel_sum (=) (rel_prod (=) related) (find_outliers p t) (find_outliers2 q t)"
    and "rel_sum (=) (rel_prod (=) related) (group_values p) (group_values_by_ranges q)"
    and "rel_sum (=) (rel_prod (=) related) (generate_text_report p) (generate_text_report2 q)"
proof -
  note d = related_done [OF assms]
  from d have q: "is_processed (results2 q)" and r: "results p = Some (pd_values (results2 q))"
    by simp_all
  show "rel_sum (=) (rel_prod (\<lambda>r r'. r = Some r') related) (get_results p) (get_results2 q)"
    using assms q r by (simp add: get_results_done get_results2_done)
  show "rel_sum (=) (rel_prod (=) related) (calculate_stats p) (calculate_stats2 q)"
    using assms
    by (cases "calculate_basic_stats (pd_values (results2 q))")
       (simp_all add: calculate_stats_done [OF assms(2) r] calculate_stats2_done [OF q])
  show "rel_sum (=) (rel_prod (=) related) (find_outliers p t) (find_outliers2 q t)"
    using assms
    by (cases "calculate_basic_stats (pd_values (results2 q))")
       (simp_all add: find_outliers_done [OF assms(2) r] find_outliers2_done [OF q])
  show "rel_sum (=) (rel_prod (=) related) (group_values p) (group_values_by_ranges q)"
    using assms
    by (simp add: group_values_done [OF assms(2) r] group_values_by_ranges_done [OF q])
  show "rel_sum (=) (rel_prod (=) related) (generate_text_report p) (generate_text_report2 q)"
    using assms
    by (cases "calculate_basic_stats (pd_values (results2 q))")
       (simp_all add: generate_text_report_done [OF assms(2) r]
          generate_text_report2_done [OF q])
qed

lemma sim_lazy:
  assumes rel: "related p q" and np: "\<not> processed p"
    and f: "f p = (case process_data p of Inl e \<Rightarrow> Inl e | Inr p' \<Rightarrow> f p')"
    and g: "g q = (case process_data2 q of Inl e \<Rightarrow> Inl e | Inr q' \<Rightarrow> g q')"
    and fin: "\<And>p' q'. related p' q' \<Longrightarrow> processed p' \<Longrightarrow> rel_sum (=) R (f p') (g q')"
  shows "rel_sum (=) R (f p) (g q)"
proof (cases "process_data p")
  case (Inl e)
  with sim_process_data [OF rel] have "process_data2 q = Inl e"
    by (cases "process_data2 q") simp_all
  with Inl f g show ?thesis by simp
next
  case (Inr p')
  with sim_process_data [OF rel] obtain q' where q': "process_data2 q = Inr q'" "related p' q'"
    by (cases "process_data2 q") simp_all
  from Inr have "processed p'" by (simp add: process_data_processed)
  with q' fin have "rel_sum (=) R (f p') (g q')" by blast
  with Inr q' f g show ?thesis by simp
qed

lemma sim_all:
  assumes rel: "related p q"
  shows "rel_sum (=) (rel_prod (\<lambda>r r'. r = Some r') related) (get_results p) (get_results2 q)"
    and "rel_sum (=) (rel_prod (=) related) (calculate_stats p) (calculate_stats2 q)"
    and "rel_sum (=) (rel_prod (=) related) (find_outliers p t) (find_outliers2 q t)"
    and "rel_sum (=) (rel_prod (=) related) (group_values p) (group_values_by_ranges q)"
    and "rel_sum (=) (rel_prod (=) related) (generate_text_report p) (generate_text_report2 q)"
proof -
  have nq: "\<not> is_processed (results2 q)" if "\<not> processed p"
    using that rel by (simp add: related_def)
  show "rel_sum (=) (rel_prod (\<lambda>r r'. r = Some r') related) (get_results p) (get_results2 q)"
  proof (cases "processed p")
    case True with rel show ?thesis by (rule sim_done)
  next
    case False
    show ?thesis
      by (rule sim_lazy [OF rel False get_results_lazy [OF False] get_results2_lazy [OF nq [OF False]]])
         (rule sim_done)
  qed
  show "rel_sum (=) (rel_prod (=) related) (calculate_stats p) (calculate_stats2 q)"
  proof (cases "processed p")
    case True with rel show ?thesis by (rule sim_done)
  next
    case False
    show ?thesis
      by (rule sim_lazy [OF rel False calculate_stats_lazy [OF False] calculate_stats2_lazy [OF nq [OF False]]])
         (rule sim_done)
  qed
  show "rel_sum (=) (rel_prod (=) related) (find_outliers p t) (find_outliers2 q t)"
  proof (cases "processed p")
    case True with rel show ?thesis by (rule sim_done)
  next
    case False
    show ?thesis
      by (rule sim_lazy [where f = "\<lambda>p. find_outliers p t" and g = "\<lambda>q. find_outliers2 q t",
            OF rel False find_outliers_lazy [OF False] find_outliers2_lazy [OF nq [OF False]]])
         (rule sim_done)
  qed
  show "rel_sum (=) (rel_prod (=) related) (group_values p) (group_values_by_ranges q)"
  proof (cases "processed p")
    case True with rel show ?thesis by (rule sim_done)
  next
    case False
    show ?thesis
      by (rule sim_lazy [OF rel False group_values_lazy [OF False] group_values_by_ranges_lazy [OF nq [OF False]]])
         (rule sim_done)
  qed
  show "rel_sum (=) (rel_prod (=) related) (generate_text_report p) (generate_text_report2 q)"
  proof (cases "processed p")
    case True with rel show ?thesis by (rule sim_done)
  next
    case False
    show ?thesis
      by (rule sim_lazy [OF rel False generate_text_report_lazy [OF False] generate_text_report2_lazy [OF nq [OF False]]])
         (rule sim_done)
  qed
qed

text \<open>
  Claim C2. The two modules are observationally equivalent. Processors constructed from
  the same list correspond, and on corresponding processors \<^verbatim>\<open>process_data\<close>,
  \<^verbatim>\<open>get_results\<close>, \<^verbatim>\<open>calculate_stats\<close>, \<^verbatim>\<open>find_outliers\<close>, the grouping and
  \<^verbatim>\<open>generate_text_report\<close> of \<^verbatim>\<open>main.py\<close> and of \<^verbatim>\<open>main2.py\<close> either raise the same
  error or return equal results and leave corresponding processors.
\<close>

theorem modules_equivalent:
  "related (DataProcessor D) (DataProcessor2 D) \<and>
   (related p q \<longrightarrow>
      rel_sum (=) related (process_data p) (process_data2 q) \<and>
      rel_sum (=) (rel_prod (\<lambda>r r'. r = Some r') related) (get_results p) (get_results2 q) \<and>
      rel_sum (=) (rel_prod (=) related) (calculate_stats p) (calculate_stats2 q) \<and>
      rel_sum (=) (rel_prod (=) related) (find_outliers p t) (find_outliers2 q t) \<and>
      rel_sum (=) (rel_prod (=) related) (group_values p) (group_values_by_ranges q) \<and>
      rel_sum (=) (rel_prod (=) related) (generate_text_report p) (generate_text_report2 q))"
  using related_fresh sim_process_data sim_all by blast

lemma str_nat_digit: "n < 10 \<Longrightarrow> str_nat n = [48 + n]"
  by (simp add: str_nat.simps)

lemma format_2f_16: "format_2f 16 = ascii ''16.00''"
  by (simp add: format_2f_def round_half_even_def ascii_def str_nat.simps [of 16] str_nat_digit)

lemma format_2f_0: "format_2f 0 = ascii ''0.00''"
  by (simp add: format_2f_def round_half_even_def ascii_def str_nat_digit)

lemma basic_stats_16:
  "calculate_basic_stats [16] =
     Inr \<lparr>stats_mean = Fin 16, stats_max = 16, stats_min = 16, stats_std_dev = Fin 0\<rparr>"
proof -
  have m: "calculate_mean [16] = Inr (Fin 16)"
    by (simp add: calculate_mean_def py_sum_def fl_def dbl_overflow_def num_div_def)
  have "calculate_standard_deviation [16] = Inr (Fin 0)"
    by (rule standard_deviation_constant [OF _ _ m]) simp_all
  with m show ?thesis by (simp add: calculate_basic_stats_def)
qed

lemma process_values_4: "process_values [4] = Inr [16]"
proof -
  have "\<not> overflows 4" by (simp add: overflows_def dbl_overflow_def)
  then show ?thesis by (simp add: process_value_eq process_result_def)
qed

theorem modules_equivalent_witness:
  "generate_text_report2 (DataProcessor2 [4]) =
     Inr (py_join [10]
            [lbl_header,
             lbl_mean @ ascii ''16.00'',
             lbl_max @ ascii ''16.00'',
             lbl_min @ ascii ''16.00'',
             lbl_std_dev @ ascii ''0.00'',
             lbl_outliers,
             lbl_grouping,
             lbl_low @ ascii ''0'',
             lbl_medium @ ascii ''1'',
             lbl_high @ ascii ''0''], processed_with2 [4] [16]) \<and>
   (\<exists>p'. generate_text_report (DataProcessor [4]) =
     Inr (py_join [10]
            [lbl_header,
             lbl_mean @ ascii ''16.00'',
             lbl_max @ ascii ''16.00'',
             lbl_min @ ascii ''16.00'',
             lbl_std_dev @ ascii ''0.00'',
             lbl_outliers,
             lbl_grouping,
             lbl_low @ ascii ''0'',
             lbl_medium @ ascii ''1'',
             lbl_high @ ascii ''0''], p'))"
proof -
  have ne: "[4] \<noteq> ([] :: int list)" by simp
  have o: "spec_findOutliers
      \<lparr>stats_mean = Fin 16, stats_max = 16, stats_min = 16, stats_std_dev = Fin 0\<rparr> [16]
      default_threshold = []"
    by (rule spec_findOutliers_constant [of _ 16]) simp_all
  have r2: "generate_text_report2 (DataProcessor2 [4]) =
     Inr (py_join [10]
            [lbl_header,
             lbl_mean @ ascii ''16.00'',
             lbl_max @ ascii ''16.00'',
             lbl_min @ ascii ''16.00'',
             lbl_std_dev @ ascii ''0.00'',
             lbl_outliers,
             lbl_grouping,
             lbl_low @ ascii ''0'',
             lbl_medium @ ascii ''1'',
             lbl_high @ ascii ''0''], processed_with2 [4] [16])"
    by (simp add: fresh2_lazy [OF ne process_values_4] generate_text_report2_done
          processed_with_simps basic_stats_16 o report_text_def spec_groups_def
          format_2f_16 format_2f_0 str_nat_digit ascii_def)
  have "rel_sum (=) (rel_prod (=) related) (generate_text_report (DataProcessor [4]))
          (generate_text_report2 (DataProcessor2 [4]))"
    using modules_equivalent [of "[4]" "DataProcessor [4]" "DataProcessor2 [4]"] by simp
  with r2 show ?thesis
    by (cases "generate_text_report (DataProcessor [4])") auto
qed

section \<open>Outliers\<close>






section \<open>Groups\<close>

lemma spec_groups_length:
  "length (low (spec_groups rs)) + length (medium (spec_groups rs)) +
     length (high (spec_groups rs)) = length rs"
  by (induction rs) (auto simp: spec_groups_def)

lemma spec_groups_disjoint:
  "set (low (spec_groups rs)) \<inter> set (medium (spec_groups rs)) = {}"
  "set (low (spec_groups rs)) \<inter> set (high (spec_groups rs)) = {}"
  "set (medium (spec_groups rs)) \<inter> set (high (spec_groups rs)) = {}"
  by (auto simp: spec_groups_def)

text \<open>
  Claim C5. For every list \<open>rs\<close> of processed values, \<^verbatim>\<open>group_values\<close> of \<^verbatim>\<open>main.py\<close>
  and \<^verbatim>\<open>group_values_by_ranges\<close> of \<^verbatim>\<open>main2.py\<close> return the same three buckets: the
  values below 10, the values from 10 to 50 and the values above 50, each in the order
  of \<open>rs\<close>. The buckets are pairwise disjoint and their lengths add up to the length of
  \<open>rs\<close>. Called on a freshly constructed processor, both process the dataset first and
  fail if that fails.
\<close>

theorem group_values_partition:
  "\<exists>g. group_values (processed_with D rs) = Inr (g, processed_with D rs) \<and>
        group_values_by_ranges (processed_with2 D rs) = Inr (g, processed_with2 D rs) \<and>
        (D \<noteq> [] \<and> process_values D = Inr rs \<longrightarrow>
           group_values (DataProcessor D) = Inr (g, processed_with D rs) \<and>
           group_values_by_ranges (DataProcessor2 D) = Inr (g, processed_with2 D rs)) \<and>
        (D \<noteq> [] \<and> process_values D = Inl e \<longrightarrow>
           group_values (DataProcessor D) = Inl e \<and>
           group_values_by_ranges (DataProcessor2 D) = Inl e) \<and>
        low g = filter (\<lambda>v. v < 10) rs \<and>
        medium g = filter (\<lambda>v. 10 \<le> v \<and> v \<le> 50) rs \<and>
        high g = filter (\<lambda>v. v > 50) rs \<and>
        set (low g) \<inter> set (medium g) = {} \<and>
        set (low g) \<inter> set (high g) = {} \<and>
        set (medium g) \<inter> set (high g) = {} \<and>
        length (low g) + length (medium g) + length (high g) = length rs"
proof -
  have "low (spec_groups rs) = filter (\<lambda>v. v < 10) rs"
    "medium (spec_groups rs) = filter (\<lambda>v. 10 \<le> v \<and> v \<le> 50) rs"
    "high (spec_groups rs) = filter (\<lambda>v. v > 50) rs"
    by (simp_all add: spec_groups_def)
  then show ?thesis
    using spec_groups_length [of rs] spec_groups_disjoint [of rs]
    by (intro exI [of _ "spec_groups rs"])
       (simp add: group_values_done group_values_by_ranges_done processed_with_simps
          fresh_lazy fresh2_lazy fresh_error fresh2_error)
qed

lemma process_values_4_1_30: "process_values [4, 1, 30] = Inr [16, 1, 90]"
proof -
  have "\<not> overflows 4" "\<not> overflows 1" "\<not> overflows 30"
    by (simp_all add: overflows_def dbl_overflow_def)
  then show ?thesis
    by (simp add: process_value_eq process_result_def)
qed

theorem group_values_partition_witness:
  "group_values (processed_with [] [5, 10, 60, 50, 101 / 2, 3, 10]) =
     Inr (\<lparr>low = [5, 3], medium = [10, 50, 10], high = [60, 101 / 2]\<rparr>,
          processed_with [] [5, 10, 60, 50, 101 / 2, 3, 10]) \<and>
   group_values_by_ranges (DataProcessor2 [4, 1, 30]) =
     Inr (\<lparr>low = [1], medium = [16], high = [90]\<rparr>, processed_with2 [4, 1, 30] [16, 1, 90])"
proof -
  from group_values_partition [of "[]" "[5, 10, 60, 50, 101 / 2, 3, 10]"]
  obtain g where
    g: "group_values (processed_with [] [5, 10, 60, 50, 101 / 2, 3, 10]) =
          Inr (g, processed_with [] [5, 10, 60, 50, 101 / 2, 3, 10])"
    and "low g = [5, 3]" "medium g = [10, 50, 10]" "high g = [60, 101 / 2]"
    by auto
  then have a: "g = \<lparr>low = [5, 3], medium = [10, 50, 10], high = [60, 101 / 2]\<rparr>"
    by simp
  from group_values_partition [of "[4, 1, 30]" "[16, 1, 90]"] process_values_4_1_30
  obtain h where
    h: "group_values_by_ranges (DataProcessor2 [4, 1, 30]) =
          Inr (h, processed_with2 [4, 1, 30] [16, 1, 90])"
    and "low h = [1]" "medium h = [16]" "high h = [90]"
    by (auto simp del: process_values.simps)
  then have b: "h = \<lparr>low = [1], medium = [16], high = [90]\<rparr>"
    by simp
  from g h a b show ?thesis by simp
qed

section \<open>Processed values are not negative\<close>

lemma process_result_nonneg: "0 \<le> process_result n"
  by (simp add: process_result_def Let_def round_double_nonneg)

lemma process_value_nonneg: "process_value n = Inr v \<Longrightarrow> 0 \<le> v"
  by (auto simp: process_value_eq process_result_nonneg split: if_splits)

lemma process_values_nonneg:
  assumes "process_values D = Inr rs" "v \<in> set rs"
  shows "0 \<le> v"
proof -
  from assms(2) obtain i where i: "i < length rs" "rs ! i = v"
    by (auto simp: in_set_conv_nth)
  with process_values_Inr [OF assms(1)] have "process_value (D ! i) = Inr v" by simp
  then show ?thesis by (rule process_value_nonneg)
qed

lemma calculate_basic_stats_cases:
  assumes "vs \<noteq> []"
  shows "calculate_basic_stats vs = Inl OverflowError \<or>
         (\<exists>st. calculate_basic_stats vs = Inr st)"
proof -
  from assms obtain x xs where vs: "vs = x # xs" by (cases vs) simp_all
  from calculate_mean_cases [OF assms] calculate_standard_deviation_cases [OF assms]
  show ?thesis
    unfolding calculate_basic_stats_def vs py_max.simps py_min.simps
    by (auto split: sum.splits)
qed

text \<open>
  Claim C10. Every processed value is nonnegative: whenever \<^verbatim>\<open>get_results\<close> of either
  module returns the processed values of a raw dataset, none of them is negative;
  whenever \<^verbatim>\<open>calculate_stats\<close> returns, the minimum among the statistics is nonnegative;
  and whenever the grouping returns, the low bucket holds only values from 0 up to, but
  not including, 10. For a non-empty dataset with no element beyond the range of the
  transform the values and the groups are returned, and the statistics are returned
  unless they raise \<^verbatim>\<open>OverflowError\<close>.
\<close>

theorem processed_values_nonneg:
  "(get_results (DataProcessor D) = Inr (res, p1) \<longrightarrow>
      (\<exists>rs. res = Some rs \<and> (\<forall>v\<in>set rs. 0 \<le> v))) \<and>
   (get_results2 (DataProcessor2 D) = Inr (rs2, q1) \<longrightarrow> (\<forall>v\<in>set rs2. 0 \<le> v)) \<and>
   (calculate_stats (DataProcessor D) = Inr (st, p2) \<longrightarrow> 0 \<le> stats_min st) \<and>
   (calculate_stats2 (DataProcessor2 D) = Inr (st2, q2) \<longrightarrow> 0 \<le> stats_min st2) \<and>
   (group_values (DataProcessor D) = Inr (g, p3) \<longrightarrow> (\<forall>v\<in>set (low g). 0 \<le> v \<and> v < 10)) \<and>
   (group_values_by_ranges (DataProcessor2 D) = Inr (g2, q3) \<longrightarrow>
      (\<forall>v\<in>set (low g2). 0 \<le> v \<and> v < 10)) \<and>
   (D \<noteq> [] \<and> (\<forall>n\<in>set D. \<not> overflows n) \<longrightarrow>
      (\<exists>rs gs.
         get_results (DataProcessor D) = Inr (Some rs, processed_with D rs) \<and>
         get_results2 (DataProcessor2 D) = Inr (rs, processed_with2 D rs) \<and>
         group_values (DataProcessor D) = Inr (gs, processed_with D rs) \<and>
         group_values_by_ranges (DataProcessor2 D) = Inr (gs, processed_with2 D rs) \<and>
         (calculate_stats (DataProcessor D) = Inl OverflowError \<and>
          calculate_stats2 (DataProcessor2 D) = Inl OverflowError \<or>
          (\<exists>s. calculate_stats (DataProcessor D) = Inr (s, processed_with D rs) \<and>
               calculate_stats2 (DataProcessor2 D) = Inr (s, processed_with2 D rs)))))"
proof (cases "D = []")
  case True
  then show ?thesis by (simp add: empty_error)
next
  case ne: False
  show ?thesis
  proof (cases "process_values D")
    case (Inl e)
    with process_values_total [of D] have "\<not> (\<forall>n\<in>set D. \<not> overflows n)" by auto
    with ne Inl show ?thesis
      by (simp add: fresh_error fresh2_error)
  next
    case (Inr rs)
    have nn: "\<forall>v\<in>set rs. 0 \<le> v"
      using process_values_nonneg [OF Inr] by blast
    have rne: "rs \<noteq> []"
      using process_values_Inr [OF Inr] ne by auto
    have mn: "0 \<le> stats_min s" if "calculate_basic_stats rs = Inr s" for s
      using calculate_basic_stats_min [OF that] nn by blast
    have lo: "\<forall>v\<in>set (low (spec_groups rs)). 0 \<le> v \<and> v < 10"
      using nn by (simp add: spec_groups_def)
    have a: "get_results (DataProcessor D) = Inr (Some rs, processed_with D rs)"
      "get_results2 (DataProcessor2 D) = Inr (rs, processed_with2 D rs)"
      "group_values (DataProcessor D) = Inr (spec_groups rs, processed_with D rs)"
      "group_values_by_ranges (DataProcessor2 D) = Inr (spec_groups rs, processed_with2 D rs)"
      "calculate_stats (DataProcessor D) =
         map_sum id (\<lambda>st. (st, processed_with D rs)) (calculate_basic_stats rs)"
      "calculate_stats2 (DataProcessor2 D) =
         map_sum id (\<lambda>st. (st, processed_with2 D rs)) (calculate_basic_stats rs)"
      by (simp_all add: fresh_lazy [OF ne Inr] fresh2_lazy [OF ne Inr] get_results_done
            get_results2_done group_values_done group_values_by_ranges_done
            calculate_stats_done calculate_stats2_done processed_with_simps)
    from calculate_basic_stats_cases [OF rne] show ?thesis
    proof
      assume o: "calculate_basic_stats rs = Inl OverflowError"
      show ?thesis
        unfolding a o using nn lo by auto
    next
      assume "\<exists>s. calculate_basic_stats rs = Inr s"
      then obtain s where s: "calculate_basic_stats rs = Inr s" by blast
      show ?thesis
        unfolding a s using nn lo mn [OF s] by auto
    qed
  qed
qed

lemma process_values_9_0_4: "process_values [- 9, 0, 4] = Inr [3, 0, 16]"
proof -
  have "\<not> overflows (- 9)" "\<not> overflows 0" "\<not> overflows 4"
    by (simp_all add: overflows_def dbl_overflow_def)
  then show ?thesis
    by (simp add: process_value_eq process_result_def sqrt_9 round_double_0)
qed

theorem processed_values_nonneg_witness:
  "get_results (DataProcessor [- 9, 0, 4]) =
     Inr (Some [3, 0, 16], processed_with [- 9, 0, 4] [3, 0, 16]) \<and>
   get_results2 (DataProcessor2 [- 9, 0, 4]) =
     Inr ([3, 0, 16], processed_with2 [- 9, 0, 4] [3, 0, 16]) \<and>
   (\<exists>g. group_values (DataProcessor [- 9, 0, 4]) =
          Inr (g, processed_with [- 9, 0, 4] [3, 0, 16]) \<and>
        group_values_by_ranges (DataProcessor2 [- 9, 0, 4]) =
          Inr (g, processed_with2 [- 9, 0, 4] [3, 0, 16]) \<and>
        low g = [3, 0] \<and> list_all (\<lambda>v. 0 \<le> v \<and> v < 10) (low g)) \<and>
   (\<exists>st. calculate_stats (DataProcessor [0, 0, 0, 0, 10]) =
           Inr (st, processed_with [0, 0, 0, 0, 10] [0, 0, 0, 0, 100]) \<and>
         calculate_stats2 (DataProcessor2 [0, 0, 0, 0, 10]) =
           Inr (st, processed_with2 [0, 0, 0, 0, 10] [0, 0, 0, 0, 100]) \<and>
         stats_min st = 0 \<and> 0 \<le> stats_min st)"
proof -
  let ?D = "[- 9, 0, 4] :: int list"
  let ?rs = "[3, 0, 16] :: real list"
  let ?E = "[0, 0, 0, 0, 10] :: int list"
  let ?vs = "[0, 0, 0, 0, 100] :: real list"
  let ?st = "\<lparr>stats_mean = Fin 20, stats_max = 100, stats_min = 0, stats_std_dev = Fin 40\<rparr>"
  have ne: "?D \<noteq> []" "?E \<noteq> []" by simp_all
  have r: "get_results (DataProcessor ?D) = Inr (Some ?rs, processed_with ?D ?rs)"
    "get_results2 (DataProcessor2 ?D) = Inr (?rs, processed_with2 ?D ?rs)"
    by (simp_all add: fresh_lazy [OF ne(1) process_values_9_0_4]
          fresh2_lazy [OF ne(1) process_values_9_0_4] get_results_done get_results2_done
          processed_with_simps)
  have g: "group_values (DataProcessor ?D) = Inr (spec_groups ?rs, processed_with ?D ?rs)"
    "group_values_by_ranges (DataProcessor2 ?D) = Inr (spec_groups ?rs, processed_with2 ?D ?rs)"
    by (simp_all add: fresh_lazy [OF ne(1) process_values_9_0_4]
          fresh2_lazy [OF ne(1) process_values_9_0_4] group_values_done
          group_values_by_ranges_done processed_with_simps)
  have s: "calculate_stats (DataProcessor ?E) = Inr (?st, processed_with ?E ?vs)"
    "calculate_stats2 (DataProcessor2 ?E) = Inr (?st, processed_with2 ?E ?vs)"
    by (simp_all add: fresh_lazy [OF ne(2) process_values_0_10]
          fresh2_lazy [OF ne(2) process_values_0_10] calculate_stats_done
          calculate_stats2_done processed_with_simps basic_stats_0_100)
  have lg: "low (spec_groups ?rs) = [3, 0]" by (simp add: spec_groups_def)
  note t1 = processed_values_nonneg [of ?D "Some ?rs" "processed_with ?D ?rs" ?rs
      "processed_with2 ?D ?rs" ?st "processed_with ?D ?rs" ?st "processed_with2 ?D ?rs"
      "spec_groups ?rs" "processed_with ?D ?rs" "spec_groups ?rs" "processed_with2 ?D ?rs"]
  note t2 = processed_values_nonneg [of ?E "Some ?vs" "processed_with ?E ?vs" ?vs
      "processed_with2 ?E ?vs" ?st "processed_with ?E ?vs" ?st "processed_with2 ?E ?vs"
      "spec_groups ?vs" "processed_with ?E ?vs" "spec_groups ?vs" "processed_with2 ?E ?vs"]
  from t1 g(1) have "\<forall>v\<in>set (low (spec_groups ?rs)). 0 \<le> v \<and> v < 10" by blast
  then have la: "list_all (\<lambda>v. 0 \<le> v \<and> v < 10) (low (spec_groups ?rs))"
    by (simp only: list_all_iff)
  from t2 s(1) have mn: "0 \<le> stats_min ?st" by blast
  have m0: "stats_min ?st = 0" by simp
  from r g lg la s mn m0 show ?thesis by blast
qed

section \<open>The standalone formula: errors and result\<close>

lemma math_log_ge_1: "1 \<le> b \<Longrightarrow> math_log L (Fin b) = Inr (Fin (L b))"
  by simp

lemma math_log_fl_ge_1:
  assumes "1 \<le> b"
  shows "\<exists>l. math_log L (fl b) = Inr l"
proof -
  from round_double_ge_1 [OF assms] have "0 < round_double b" by linarith
  moreover from assms dbl_overflow_pos have "\<not> b \<le> - dbl_overflow" by linarith
  ultimately show ?thesis by (simp add: fl_def)
qed

lemma compute_base_log: "\<exists>l. math_log L (compute_base x y z) = Inr l"
proof (cases z)
  case None
  show ?thesis
  proof (cases "x * y > 0")
    case True
    then have "0 < real_of_int (x * y)" by (simp only: of_int_0_less_iff)
    with None True show ?thesis by (simp add: compute_base_def del: of_int_mult)
  next
    case False
    have "0 < \<bar>x * y\<bar> + 1" by linarith
    then have "0 < real_of_int (\<bar>x * y\<bar> + 1)" by (simp only: of_int_0_less_iff)
    with None False show ?thesis by (simp add: compute_base_def del: of_int_mult of_int_add)
  qed
next
  case (Some z')
  define r where "r = round_double (of_int (x * y) / of_int z')"
  have b: "compute_base x y z = (if r > 0 then Fin r else fl (\<bar>r\<bar> + 1))"
    by (simp only: compute_base_def Some option.case r_def Let_def)
  show ?thesis
  proof (cases "r > 0")
    case True
    then show ?thesis by (simp add: b)
  next
    case False
    have "\<exists>l. math_log L (fl (\<bar>r\<bar> + 1)) = Inr l"
      by (rule math_log_fl_ge_1) simp
    with False show ?thesis by (simp only: b if_False)
  qed
qed

lemma complex_operation_base:
  assumes "z \<noteq> Some 0" "\<not> quotient_overflows x y z"
  shows "complex_operation L x y z =
           (case math_log L (compute_base x y z) of
              Inl e \<Rightarrow> Inl e | Inr l \<Rightarrow> Inr (float_mul l (Fin math_pi)))"
    and "perform_complex_calculation L x y z =
           (case math_log L (compute_base x y z) of
              Inl e \<Rightarrow> Inl e | Inr l \<Rightarrow> Inr (float_mul l (Fin math_pi)))"
  using assms
  by (cases z; simp add: complex_operation_def perform_complex_calculation_def
        compute_base_def quotient_overflows_def int_truediv_def Let_def)+

text \<open>
  Claim C9. \<^verbatim>\<open>complex_operation\<close> and \<^verbatim>\<open>perform_complex_calculation\<close> fail when \<open>z\<close> is
  present and zero, with the \<^verbatim>\<open>ValueError\<close> of their module, and when the quotient of the
  product by \<open>z\<close> is beyond the doubles, with \<^verbatim>\<open>OverflowError\<close>; they fail in no other
  case. Otherwise they return the logarithm of the base times \<^verbatim>\<open>math.pi\<close>, rounded, the
  base being \<open>r\<close> if \<open>r > 0\<close> and \<open>|r| + 1\<close> otherwise, where \<open>r\<close> is the product of \<open>x\<close> and
  \<open>y\<close>, or its quotient by \<open>z\<close> rounded to a double when \<open>z\<close> is present. For 5, 10 and no
  \<open>z\<close> the result is the logarithm of 50 times \<^verbatim>\<open>math.pi\<close>. So the functions do not fail
  only for \<open>z = 0\<close>: they raise \<^verbatim>\<open>OverflowError\<close> for \<open>10 ^ 400\<close>, 1 and 1; and a quotient
  that underflows, as that of 1 by \<open>10 ^ 400\<close>, is rounded to zero, which makes the base 1.
\<close>

theorem complex_calculation_domain:
  "(z = Some 0 \<longrightarrow>
      complex_operation L x y z = Inl (ValueError msg_z_zero) \<and>
      perform_complex_calculation L x y z = Inl (ValueError msg_divisor_zero)) \<and>
   (quotient_overflows x y z \<longrightarrow>
      complex_operation L x y z = Inl OverflowError \<and>
      perform_complex_calculation L x y z = Inl OverflowError) \<and>
   (z \<noteq> Some 0 \<and> \<not> quotient_overflows x y z \<longrightarrow>
      (\<exists>l. math_log L (compute_base x y z) = Inr l \<and>
           complex_operation L x y z = Inr (float_mul l (Fin math_pi)) \<and>
           perform_complex_calculation L x y z = Inr (float_mul l (Fin math_pi)))) \<and>
   ((\<exists>e. complex_operation L x y z = Inl e) \<longleftrightarrow> z = Some 0 \<or> quotient_overflows x y z) \<and>
   ((\<exists>e. perform_complex_calculation L x y z = Inl e) \<longleftrightarrow>
      z = Some 0 \<or> quotient_overflows x y z) \<and>
   complex_operation L 5 10 None = Inr (fl (L 50 * math_pi)) \<and>
   perform_complex_calculation L 5 10 None = Inr (fl (L 50 * math_pi))"
proof -
  have a: "complex_operation L x y z = Inl (ValueError msg_z_zero) \<and>
      perform_complex_calculation L x y z = Inl (ValueError msg_divisor_zero)" if "z = Some 0"
    using that by (simp add: complex_operation_def perform_complex_calculation_def)
  have b: "complex_operation L x y z = Inl OverflowError \<and>
      perform_complex_calculation L x y z = Inl OverflowError" if "quotient_overflows x y z"
    using that
    by (cases z; simp add: complex_operation_def perform_complex_calculation_def
          quotient_overflows_def int_truediv_def)
  have c: "\<exists>l. math_log L (compute_base x y z) = Inr l \<and>
      complex_operation L x y z = Inr (float_mul l (Fin math_pi)) \<and>
      perform_complex_calculation L x y z = Inr (float_mul l (Fin math_pi))"
    if "z \<noteq> Some 0 \<and> \<not> quotient_overflows x y z"
  proof -
    from compute_base_log [of L x y z] obtain l where
      l: "math_log L (compute_base x y z) = Inr l" by blast
    with that show ?thesis by (simp add: complex_operation_base)
  qed
  have d: "(\<exists>e. complex_operation L x y z = Inl e) \<longleftrightarrow> z = Some 0 \<or> quotient_overflows x y z"
    using a b c by (cases "z = Some 0 \<or> quotient_overflows x y z") auto
  have e: "(\<exists>e. perform_complex_calculation L x y z = Inl e) \<longleftrightarrow>
      z = Some 0 \<or> quotient_overflows x y z"
    using a b c by (cases "z = Some 0 \<or> quotient_overflows x y z") auto
  have f: "complex_operation L 5 10 None = Inr (fl (L 50 * math_pi))"
    "perform_complex_calculation L 5 10 None = Inr (fl (L 50 * math_pi))"
    by (simp_all add: complex_operation_def perform_complex_calculation_def)
  from a b c d e f show ?thesis by blast
qed

theorem complex_calculation_domain_counterexample:
  "\<forall>L. complex_operation L (10 ^ 400) 1 (Some 1) = Inl OverflowError \<and>
       perform_complex_calculation L (10 ^ 400) 1 (Some 1) = Inl OverflowError \<and>
       complex_operation L 1 1 (Some (10 ^ 400)) = Inr (fl (L 1 * math_pi)) \<and>
       perform_complex_calculation L 1 1 (Some (10 ^ 400)) = Inr (fl (L 1 * math_pi))"
proof (intro allI)
  fix L :: "real \<Rightarrow> real"
  have big: "int_truediv (10 ^ 400 * 1) 1 = Inl OverflowError"
    by (simp add: int_truediv_def dbl_overflow_def)
  define q :: real where "q = 1 / 10 ^ 400"
  have "\<bar>q\<bar> < 2 powi (- 1022)" "round_half_even (q / 2 powi (- 1074)) = 0"
    unfolding q_def by (simp_all add: round_half_even_def power_int_minus)
  then have "round_double q = 0"
    by (simp add: round_double_subnormal)
  moreover have "\<bar>q\<bar> < dbl_overflow" by (simp add: q_def dbl_overflow_def)
  ultimately have small: "int_truediv (1 * 1) (10 ^ 400) = Inr 0"
    by (simp add: int_truediv_def q_def)
  have one: "fl (0 + 1) = Fin 1" by (simp add: fl_def dbl_overflow_def)
  show "complex_operation L (10 ^ 400) 1 (Some 1) = Inl OverflowError \<and>
       perform_complex_calculation L (10 ^ 400) 1 (Some 1) = Inl OverflowError \<and>
       complex_operation L 1 1 (Some (10 ^ 400)) = Inr (fl (L 1 * math_pi)) \<and>
       perform_complex_calculation L 1 1 (Some (10 ^ 400)) = Inr (fl (L 1 * math_pi))"
    unfolding complex_operation_def perform_complex_calculation_def
    using big small one by simp
qed

theorem complex_calculation_domain_witness:
  "complex_operation ln 5 10 (Some 0) = Inl (ValueError msg_z_zero) \<and>
   perform_complex_calculation ln 5 10 (Some 0) = Inl (ValueError msg_divisor_zero) \<and>
   complex_operation ln (2 ^ 1024) 1 (Some 1) = Inl OverflowError \<and>
   complex_operation ln 2 3 (Some (- 6)) = Inr (fl (ln 2 * math_pi)) \<and>
   perform_complex_calculation ln 2 3 (Some (- 6)) = Inr (fl (ln 2 * math_pi))"
proof -
  have o: "quotient_overflows (2 ^ 1024) 1 (Some 1)"
    by (simp add: quotient_overflows_def dbl_overflow_def)
  have n: "\<not> quotient_overflows 2 3 (Some (- 6))"
    by (simp add: quotient_overflows_def dbl_overflow_def)
  have "round_double (- 1) = - 1"
    using round_double_of_int [of "- 1"] by simp
  then have b: "compute_base 2 3 (Some (- 6)) = Fin 2"
    by (simp add: compute_base_def fl_def dbl_overflow_def)
  from complex_calculation_domain [of "Some (- 6)" ln 2 3] n b
  have c: "complex_operation ln 2 3 (Some (- 6)) = Inr (fl (ln 2 * math_pi))"
    "perform_complex_calculation ln 2 3 (Some (- 6)) = Inr (fl (ln 2 * math_pi))"
    by auto
  from complex_calculation_domain [of "Some 0" ln 5 10]
  have a: "complex_operation ln 5 10 (Some 0) = Inl (ValueError msg_z_zero)"
    "perform_complex_calculation ln 5 10 (Some 0) = Inl (ValueError msg_divisor_zero)"
    by simp_all
  from complex_calculation_domain [of "Some 1" ln "2 ^ 1024" 1] o
  have "complex_operation ln (2 ^ 1024) 1 (Some 1) = Inl OverflowError"
    by blast
  with a c show ?thesis by blast
qed

end
